theory Spec2Isabelle
  imports Complex_Main "HOL-Library.Multiset" "HOL-Library.Sublist"
begin

section \<open>Data model\<close>

text \<open>
  A track record is a JSON object with optional keys. Each key of the record store is a
  field holding \<open>None\<close> when the key is absent, so that equality of two records is
  equality on every key, as Python's \<open>==\<close> on dictionaries is. Floats are modelled as
  reals, and \<open>genre\<close>, when present, is a string.

  The resolver, the HTTP client, the decoder and the signal-processing library are not
  part of the repository: they are parameters of the model (the record \<open>env\<close>), each call
  either returning a value or raising. Writing a file always succeeds. A run returns its
  final state, which holds the records in memory, the file system and the list of the
  calls made, so that what a stage resolves, fetches and saves can be stated.
\<close>

text \<open>
  A float that a numpy computation returns: a number, or NaN (the mean of an empty array).
\<close>

datatype np_float = NaN | Val real

record rhythm_features =
  tempo :: real
  beat_times :: "real list"

record structure_features =
  sections :: "real list"
  bars :: "real list list"

record deep_features =
  energy :: "(real \<times> np_float) list"
  rhythm :: rhythm_features
  struct :: structure_features

record song =
  title :: "string option"
  artist :: "string option"
  track_url :: "string option"
  duration :: "int option"
  genre :: "string option"
  bpm :: "real option"
  key :: "string option"
  features :: "deep_features option"

text \<open>Exceptions of the program, as values.\<close>

datatype exn = FileNotFoundError | JSONDecodeError | IndexError | Exception string

text \<open>
  The file system holds, for each path that exists, either a JSON array of track
  records or content that the JSON decoder rejects.
\<close>

datatype file_content = Malformed | Records "song list"

type_synonym filesystem = "string \<Rightarrow> file_content option"

text \<open>What the resolver returns for a track and for a playlist.\<close>

record track_info =
  t_title :: string
  t_username :: string
  t_permalink_url :: string
  t_duration :: int
  t_genre :: string
  t_stream_url :: "exn + string"

record playlist_info =
  p_title :: string
  p_username :: string
  p_tracks :: "string list"

record response =
  status_code :: nat
  content :: "nat list"

type_synonym audio = "real list \<times> nat"

text \<open>
  The outside world: the resolver, the HTTP client, the decoder and the signal-processing
  library. Each call either raises or returns.
\<close>

record env =
  resolve_playlist :: "string \<Rightarrow> exn + playlist_info"
  resolve_track :: "string \<Rightarrow> exn + track_info"
  requests_get :: "string \<Rightarrow> exn + response"
  librosa_load :: "nat list \<Rightarrow> exn + audio"
  beat_track :: "audio \<Rightarrow> exn + (real \<times> nat list)"
  chroma_cqt :: "audio \<Rightarrow> exn + real list list"
  agglomerative :: "audio \<Rightarrow> nat \<Rightarrow> exn + nat list"
  rms_feature :: "audio \<Rightarrow> nat \<Rightarrow> nat \<Rightarrow> exn + real list"

text \<open>What a run does besides computing: the calls it makes and the files it writes.\<close>

datatype event =
    Resolved string
  | Fetched string
  | Saved string "song list"
  | Slept

section \<open>Record store\<close>

definition load :: "filesystem \<Rightarrow> string \<Rightarrow> exn + song list" where
  "load fs path =
     (case fs path of
        None \<Rightarrow> Inl FileNotFoundError
      | Some Malformed \<Rightarrow> Inl JSONDecodeError
      | Some (Records rs) \<Rightarrow> Inr rs)"

definition save :: "filesystem \<Rightarrow> string \<Rightarrow> song list \<Rightarrow> filesystem" where
  "save fs path rs = fs(path \<mapsto> Records rs)"

text \<open>\<open>if new_track not in all_tracks: all_tracks.append(new_track)\<close>\<close>

definition merge_insert :: "song list \<Rightarrow> song \<Rightarrow> song list" where
  "merge_insert all_tracks new_track =
     (if new_track \<notin> set all_tracks then all_tracks @ [new_track] else all_tracks)"

section \<open>Cleanup filter\<close>

definition keep_song :: "song \<Rightarrow> bool" where
  "keep_song s \<longleftrightarrow> bpm s \<noteq> None \<and> key s \<noteq> None"

definition cleaned_songs :: "song list \<Rightarrow> song list" where
  "cleaned_songs ss = filter keep_song ss"

definition clean_analyzed_songs :: "filesystem \<Rightarrow> string \<Rightarrow> string \<Rightarrow> filesystem" where
  "clean_analyzed_songs fs input_file output_file =
     (case load fs input_file of
        Inl e \<Rightarrow> fs
      | Inr ss \<Rightarrow> save fs output_file (cleaned_songs ss))"

section \<open>Python helpers\<close>

text \<open>\<open>range(start, stop, step)\<close> for a positive step, and the slice \<open>xs[i:j]\<close>.\<close>

definition py_range :: "nat \<Rightarrow> nat \<Rightarrow> nat \<Rightarrow> nat list" where
  "py_range start stop step =
     map (\<lambda>k. start + k * step) [0..<(stop - start + step - 1) div step]"

definition slice :: "'a list \<Rightarrow> nat \<Rightarrow> nat \<Rightarrow> 'a list" where
  "slice xs i j = take (j - i) (drop i xs)"

text \<open>\<open>xs[-1]\<close>: raises on the empty list.\<close>

definition py_last :: "'a list \<Rightarrow> exn + 'a" where
  "py_last xs = (if xs = [] then Inl IndexError else Inr (last xs))"

text \<open>\<open>np.mean\<close>: NaN on an empty array.\<close>

definition np_mean :: "real list \<Rightarrow> np_float" where
  "np_mean xs = (if xs = [] then NaN else Val (sum_list xs / real (length xs)))"

text \<open>
  \<open>argmax\<close> keeps the first index at which the largest value occurs; the first NaN, if
  there is one, counts as the largest value and ends the scan.
\<close>

primrec argmax_scan :: "nat \<Rightarrow> real \<Rightarrow> nat \<Rightarrow> np_float list \<Rightarrow> nat" where
  "argmax_scan best bv i [] = best"
| "argmax_scan best bv i (x # xs) =
     (case x of
        NaN \<Rightarrow> i
      | Val v \<Rightarrow>
          if bv < v then argmax_scan i v (Suc i) xs else argmax_scan best bv (Suc i) xs)"

definition argmax :: "np_float list \<Rightarrow> exn + nat" where
  "argmax xs =
     (case xs of
        [] \<Rightarrow> Inl (Exception ''ValueError'')
      | NaN # rest \<Rightarrow> Inr 0
      | Val v # rest \<Rightarrow> Inr (argmax_scan 0 v 1 rest))"

text \<open>\<open>librosa.frames_to_time\<close>: frame index times hop length, over the sample rate.\<close>

definition frames_to_time :: "nat list \<Rightarrow> nat \<Rightarrow> nat \<Rightarrow> real list" where
  "frames_to_time frames sr hop_length = map (\<lambda>f. real (f * hop_length) / real sr) frames"

section \<open>Stage 2: tempo and key\<close>

definition key_mapping :: "string list" where
  "key_mapping =
     [''C'', ''C#'', ''D'', ''D#'', ''E'', ''F'', ''F#'', ''G'', ''G#'', ''A'', ''A#'', ''B'']"

definition chroma_mean :: "real list list \<Rightarrow> np_float list" where
  "chroma_mean chroma = map np_mean chroma"

definition estimate_key :: "real list list \<Rightarrow> exn + string" where
  "estimate_key chroma =
     (case argmax (chroma_mean chroma) of
        Inl e \<Rightarrow> Inl e
      | Inr key_index \<Rightarrow>
          if key_index < length key_mapping then Inr (key_mapping ! key_index)
          else Inl IndexError)"

definition analyze_audio :: "env \<Rightarrow> audio \<Rightarrow> exn + (real \<times> string)" where
  "analyze_audio ev a =
     (case beat_track ev a of
        Inl e \<Rightarrow> Inl e
      | Inr (tempo_est, beat_frames) \<Rightarrow>
          (case chroma_cqt ev a of
             Inl e \<Rightarrow> Inl e
           | Inr chroma \<Rightarrow>
               (case estimate_key chroma of
                  Inl e \<Rightarrow> Inl e
                | Inr k \<Rightarrow> Inr (tempo_est, k))))"

definition analyze_song :: "env \<Rightarrow> string \<Rightarrow> real option \<times> string option" where
  "analyze_song ev stream_url =
     (case requests_get ev stream_url of
        Inl e \<Rightarrow> (None, None)
      | Inr resp \<Rightarrow>
          if status_code resp \<noteq> 200 then (None, None)
          else
            (case librosa_load ev (content resp) of
               Inl e \<Rightarrow> (None, None)
             | Inr a \<Rightarrow>
                 (case analyze_audio ev a of
                    Inl e \<Rightarrow> (None, None)
                  | Inr (tempo_est, k) \<Rightarrow> (Some tempo_est, Some k))))"

definition get_stream_url :: "env \<Rightarrow> string \<Rightarrow> string option" where
  "get_stream_url ev url =
     (case resolve_track ev url of
        Inl e \<Rightarrow> None
      | Inr track \<Rightarrow> (case t_stream_url track of Inl e \<Rightarrow> None | Inr u \<Rightarrow> Some u))"

text \<open>
  The state of a run: the list of records in memory (a record is addressed by its
  position, since the loops update records in place), the file system, and the calls
  made so far.
\<close>

record run_state =
  st_songs :: "song list"
  st_files :: filesystem
  st_events :: "event list"

text \<open>
  \<open>sort_songs_by_genre\<close> groups references to the records by genre, genres in order of
  first appearance.
\<close>

definition genre_of :: "song \<Rightarrow> string" where
  "genre_of s = (case genre s of None \<Rightarrow> ''Unknown'' | Some g \<Rightarrow> g)"

fun append_to :: "(string \<times> nat list) list \<Rightarrow> string \<Rightarrow> nat \<Rightarrow> (string \<times> nat list) list" where
  "append_to [] g r = [(g, [r])]"
| "append_to ((g', rs) # rest) g r =
     (if g' = g then (g', rs @ [r]) # rest else (g', rs) # append_to rest g r)"

definition sort_songs_by_genre :: "song list \<Rightarrow> (string \<times> nat list) list" where
  "sort_songs_by_genre ss =
     foldl (\<lambda>sorted_songs r. append_to sorted_songs (genre_of (ss ! r)) r) [] [0..<length ss]"

definition attach_bpm_key :: "real option \<times> string option \<Rightarrow> song \<Rightarrow> song" where
  "attach_bpm_key res s =
     (case res of
        (Some b, Some k) \<Rightarrow> if b \<noteq> 0 \<and> k \<noteq> [] then s\<lparr>bpm := Some b, key := Some k\<rparr> else s
      | _ \<Rightarrow> s)"

definition process_song :: "env \<Rightarrow> string \<Rightarrow> run_state \<Rightarrow> nat \<Rightarrow> run_state" where
  "process_song ev output_file st r =
     (let s = st_songs st ! r in
      case track_url s of
        None \<Rightarrow> st
      | Some url \<Rightarrow>
          if url = [] then st
          else
            (let st1 = st\<lparr>st_events := st_events st @ [Resolved url]\<rparr> in
             case get_stream_url ev url of
               None \<Rightarrow> st1
             | Some stream_url \<Rightarrow>
                 if stream_url = [] then st1
                 else
                   (let ss = (st_songs st1)[r := attach_bpm_key (analyze_song ev stream_url) s] in
                    st1\<lparr>st_songs := ss,
                        st_files := save (st_files st1) output_file ss,
                        st_events := st_events st1 @ [Fetched stream_url, Saved output_file ss, Slept]\<rparr>)))"

definition process_genre :: "env \<Rightarrow> string \<Rightarrow> run_state \<Rightarrow> string \<times> nat list \<Rightarrow> run_state" where
  "process_genre ev output_file st g = foldl (process_song ev output_file) st (snd g)"

definition process_songs :: "env \<Rightarrow> filesystem \<Rightarrow> string \<Rightarrow> string \<Rightarrow> exn + run_state" where
  "process_songs ev fs input_file output_file =
     (case load fs input_file of
        Inl e \<Rightarrow> Inl e
      | Inr ss \<Rightarrow>
          Inr (foldl (process_genre ev output_file)
                 \<lparr>st_songs = ss, st_files = fs, st_events = []\<rparr> (sort_songs_by_genre ss)))"

section \<open>Stage 3: deep analysis\<close>

text \<open>
  The RMS values of the frames whose time lies in \<open>[start_time, end_time)\<close>: the boolean
  mask over \<open>frame_times\<close> applied to \<open>rms\<close>.
\<close>

definition section_energy :: "real list \<Rightarrow> real list \<Rightarrow> real \<Rightarrow> real \<Rightarrow> real list" where
  "section_energy rms frame_times start_time end_time =
     map fst (filter (\<lambda>(v, t). start_time \<le> t \<and> t < end_time) (zip rms frame_times))"

text \<open>\<open>float(np.mean(section_energy)) if len(section_energy) > 0 else 0.0\<close>\<close>

definition average_energy :: "real list \<Rightarrow> np_float" where
  "average_energy vs = (if length vs > 0 then np_mean vs else Val 0)"

definition section_entry :: "real list \<Rightarrow> real list \<Rightarrow> real list \<Rightarrow> nat \<Rightarrow> exn + (real \<times> np_float)" where
  "section_entry rms frame_times segment_times i =
     (let start_time = segment_times ! i in
      case (if i < length segment_times - 1 then Inr (segment_times ! (i + 1))
            else py_last frame_times) of
        Inl e \<Rightarrow> Inl e
      | Inr end_time \<Rightarrow>
          Inr (start_time, average_energy (section_energy rms frame_times start_time end_time)))"

fun energy_loop :: "real list \<Rightarrow> real list \<Rightarrow> real list \<Rightarrow> nat list \<Rightarrow> exn + (real \<times> np_float) list" where
  "energy_loop rms frame_times segment_times [] = Inr []"
| "energy_loop rms frame_times segment_times (i # rest) =
     (case section_entry rms frame_times segment_times i of
        Inl e \<Rightarrow> Inl e
      | Inr p \<Rightarrow>
          (case energy_loop rms frame_times segment_times rest of
             Inl e \<Rightarrow> Inl e
           | Inr ps \<Rightarrow> Inr (p # ps)))"

definition energy_by_section :: "real list \<Rightarrow> real list \<Rightarrow> real list \<Rightarrow> exn + (real \<times> np_float) list" where
  "energy_by_section rms frame_times segment_times =
     energy_loop rms frame_times segment_times [0..<length segment_times]"

text \<open>\<open>librosa.frames_to_time(range(len(rms)), sr=sr, hop_length=hop_length)\<close>\<close>

definition frame_times_of :: "real list \<Rightarrow> nat \<Rightarrow> nat \<Rightarrow> real list" where
  "frame_times_of rms sr hop_length = frames_to_time [0..<length rms] sr hop_length"

definition extract_energy_by_section ::
  "env \<Rightarrow> audio \<Rightarrow> real list \<Rightarrow> nat \<Rightarrow> nat \<Rightarrow> exn + (real \<times> np_float) list" where
  "extract_energy_by_section ev a segment_times frame_length hop_length =
     (case rms_feature ev a frame_length hop_length of
        Inl e \<Rightarrow> Inl e
      | Inr rms \<Rightarrow> energy_by_section rms (frame_times_of rms (snd a) hop_length) segment_times)"

definition extract_rhythm :: "env \<Rightarrow> audio \<Rightarrow> exn + rhythm_features" where
  "extract_rhythm ev a =
     (case beat_track ev a of
        Inl e \<Rightarrow> Inl e
      | Inr (tempo_est, beat_frames) \<Rightarrow>
          Inr \<lparr>tempo = tempo_est, beat_times = frames_to_time beat_frames (snd a) 512\<rparr>)"

text \<open>\<open>[beat_frames[i:i + bar_length] for i in range(0, len(beat_frames), bar_length)]\<close>\<close>

definition group_bars :: "'a list \<Rightarrow> nat \<Rightarrow> 'a list list" where
  "group_bars beat_frames bar_length =
     map (\<lambda>i. slice beat_frames i (i + bar_length)) (py_range 0 (length beat_frames) bar_length)"

definition extract_structure :: "env \<Rightarrow> audio \<Rightarrow> nat \<Rightarrow> exn + structure_features" where
  "extract_structure ev a num_sections =
     (case agglomerative ev a num_sections of
        Inl e \<Rightarrow> Inl e
      | Inr boundaries \<Rightarrow>
          (case beat_track ev a of
             Inl e \<Rightarrow> Inl e
           | Inr (tempo_est, beat_frames) \<Rightarrow>
               Inr \<lparr>sections = frames_to_time boundaries (snd a) 512,
                    bars = map (\<lambda>bar. frames_to_time bar (snd a) 512) (group_bars beat_frames 4)\<rparr>))"

definition analyze_song_deep :: "env \<Rightarrow> audio \<Rightarrow> exn + deep_features" where
  "analyze_song_deep ev a =
     (case extract_structure ev a 4 of
        Inl e \<Rightarrow> Inl e
      | Inr st \<Rightarrow>
          (case extract_rhythm ev a of
             Inl e \<Rightarrow> Inl e
           | Inr rh \<Rightarrow>
               (case extract_energy_by_section ev a (sections st) 2048 512 of
                  Inl e \<Rightarrow> Inl e
                | Inr en \<Rightarrow> Inr \<lparr>energy = en, rhythm = rh, struct = st\<rparr>)))"

text \<open>
  The body of the \<open>try\<close> block of \<open>analyze_songs\<close>: \<open>Inr None\<close> is the \<open>continue\<close> on a
  status other than 200, \<open>Inl\<close> an exception, which the caller catches.
\<close>

definition fetch_and_analyze :: "env \<Rightarrow> string \<Rightarrow> exn + deep_features option" where
  "fetch_and_analyze ev stream_url =
     (case requests_get ev stream_url of
        Inl e \<Rightarrow> Inl e
      | Inr resp \<Rightarrow>
          if status_code resp \<noteq> 200 then Inr None
          else
            (case librosa_load ev (content resp) of
               Inl e \<Rightarrow> Inl e
             | Inr a \<Rightarrow>
                 (case analyze_song_deep ev a of
                    Inl e \<Rightarrow> Inl e
                  | Inr d \<Rightarrow> Inr (Some d))))"

definition analyze_step :: "env \<Rightarrow> string \<Rightarrow> run_state \<Rightarrow> nat \<Rightarrow> run_state" where
  "analyze_step ev output_file st idx =
     (let s = st_songs st ! idx in
      case track_url s of
        None \<Rightarrow> st
      | Some url \<Rightarrow>
          if url = [] then st
          else
            (let st1 = st\<lparr>st_events := st_events st @ [Resolved url]\<rparr> in
             case get_stream_url ev url of
               None \<Rightarrow> st1
             | Some stream_url \<Rightarrow>
                 if stream_url = [] then st1
                 else
                   (let st2 = st1\<lparr>st_events := st_events st1 @ [Fetched stream_url]\<rparr> in
                    case fetch_and_analyze ev stream_url of
                      Inl e \<Rightarrow> st2
                    | Inr None \<Rightarrow> st2
                    | Inr (Some d) \<Rightarrow>
                        (let ss = (st_songs st2)[idx := s\<lparr>features := Some d\<rparr>] in
                         st2\<lparr>st_songs := ss,
                             st_files := save (st_files st2) output_file ss,
                             st_events := st_events st2 @ [Saved output_file ss, Slept]\<rparr>))))"

definition analyze_songs :: "env \<Rightarrow> filesystem \<Rightarrow> string \<Rightarrow> string \<Rightarrow> exn + run_state" where
  "analyze_songs ev fs input_file output_file =
     (case load fs input_file of
        Inl e \<Rightarrow> Inl e
      | Inr ss \<Rightarrow>
          Inr (foldl (analyze_step ev output_file)
                 \<lparr>st_songs = ss, st_files = fs, st_events = []\<rparr> [0..<length ss]))"

section \<open>Stage 1: collection\<close>

definition new_track :: "track_info \<Rightarrow> song" where
  "new_track t =
     \<lparr>title = Some (t_title t), artist = Some (t_username t),
      track_url = Some (t_permalink_url t), duration = Some (t_duration t),
      genre = Some (t_genre t), bpm = None, key = None, features = None\<rparr>"

definition collect_track :: "env \<Rightarrow> run_state \<Rightarrow> string \<Rightarrow> run_state" where
  "collect_track ev st url =
     (let st1 = st\<lparr>st_events := st_events st @ [Resolved url]\<rparr> in
      case resolve_track ev url of
        Inl e \<Rightarrow> st1
      | Inr t \<Rightarrow> st1\<lparr>st_songs := merge_insert (st_songs st1) (new_track t)\<rparr>)"

definition collect_playlist :: "env \<Rightarrow> string \<Rightarrow> run_state \<Rightarrow> string \<Rightarrow> run_state" where
  "collect_playlist ev output_file st playlist_url =
     (let st1 = st\<lparr>st_events := st_events st @ [Resolved playlist_url]\<rparr> in
      case resolve_playlist ev playlist_url of
        Inl e \<Rightarrow> st1
      | Inr playlist \<Rightarrow>
          (let st2 = foldl (collect_track ev) st1 (p_tracks playlist) in
           st2\<lparr>st_files := save (st_files st2) output_file (st_songs st2),
               st_events := st_events st2 @ [Saved output_file (st_songs st2)]\<rparr>))"

definition url_collection :: "env \<Rightarrow> filesystem \<Rightarrow> string list \<Rightarrow> string \<Rightarrow> exn + run_state" where
  "url_collection ev fs playlist_urls output_file =
     (let fs1 = (if fs output_file = None then save fs output_file [] else fs) in
      case load fs1 output_file of
        Inl e \<Rightarrow> Inl e
      | Inr all_tracks \<Rightarrow>
          Inr (foldl (collect_playlist ev output_file)
                 \<lparr>st_songs = all_tracks, st_files = fs1, st_events = []\<rparr> playlist_urls))"

section \<open>Notions used to state the properties\<close>

text \<open>
  The end of section \<open>i\<close>: the start of the next section, and for the last section the
  time of the last analysed frame.
\<close>

definition section_end :: "real list \<Rightarrow> real list \<Rightarrow> nat \<Rightarrow> real" where
  "section_end frame_times segment_times i =
     (if i < length segment_times - 1 then segment_times ! (i + 1) else last frame_times)"

text \<open>The permalink a stage resolves for a record, if any, and the stream it then fetches.\<close>

definition url_to_resolve :: "song \<Rightarrow> string list" where
  "url_to_resolve s =
     (case track_url s of None \<Rightarrow> [] | Some url \<Rightarrow> if url = [] then [] else [url])"

definition stream_to_fetch :: "env \<Rightarrow> song \<Rightarrow> string list" where
  "stream_to_fetch ev s =
     concat (map (\<lambda>url. case get_stream_url ev url of
                           None \<Rightarrow> []
                         | Some stream_url \<Rightarrow> if stream_url = [] then [] else [stream_url])
                 (url_to_resolve s))"

definition resolved_urls :: "event list \<Rightarrow> string list" where
  "resolved_urls es = concat (map (\<lambda>e. case e of Resolved u \<Rightarrow> [u] | _ \<Rightarrow> []) es)"

definition fetched_urls :: "event list \<Rightarrow> string list" where
  "fetched_urls es = concat (map (\<lambda>e. case e of Fetched u \<Rightarrow> [u] | _ \<Rightarrow> []) es)"

text \<open>What stage 2 and stage 3 make of one record, taken alone.\<close>

definition bpm_key_update :: "env \<Rightarrow> song \<Rightarrow> song" where
  "bpm_key_update ev s =
     (case stream_to_fetch ev s of
        [] \<Rightarrow> s
      | stream_url # _ \<Rightarrow> attach_bpm_key (analyze_song ev stream_url) s)"

definition deep_update :: "env \<Rightarrow> song \<Rightarrow> song" where
  "deep_update ev s =
     (case stream_to_fetch ev s of
        [] \<Rightarrow> s
      | stream_url # _ \<Rightarrow>
          (case fetch_and_analyze ev stream_url of
             Inr (Some d) \<Rightarrow> s\<lparr>features := Some d\<rparr>
           | _ \<Rightarrow> s))"

text \<open>The records stage 1 obtains from the playlists and tracks that resolve.\<close>

definition tracks_of_playlist :: "env \<Rightarrow> string \<Rightarrow> song list" where
  "tracks_of_playlist ev playlist_url =
     (case resolve_playlist ev playlist_url of
        Inl e \<Rightarrow> []
      | Inr playlist \<Rightarrow>
          concat (map (\<lambda>url. case resolve_track ev url of
                                Inl e \<Rightarrow> []
                              | Inr t \<Rightarrow> [new_track t])
                      (p_tracks playlist)))"

section \<open>Example data\<close>

definition track_a :: song where
  "track_a =
     \<lparr>title = Some ''Alpha'', artist = Some ''ann'', track_url = Some ''u1'',
      duration = Some 1000, genre = Some ''house'', bpm = None, key = None, features = None\<rparr>"

definition track_a_retitled :: song where
  "track_a_retitled = track_a\<lparr>title := Some ''Alpha (remaster)''\<rparr>"

definition track_b :: song where
  "track_b =
     \<lparr>title = Some ''Beta'', artist = Some ''bob'', track_url = Some ''u2'',
      duration = Some 2000, genre = Some ''techno'', bpm = Some 128, key = Some ''A'',
      features = None\<rparr>"

definition track_c :: song where
  "track_c =
     \<lparr>title = Some ''Gamma'', artist = Some ''cy'', track_url = Some ''u3'',
      duration = Some 3000, genre = Some ''house'', bpm = Some 120, key = None,
      features = None\<rparr>"

definition demo_env :: env where
  "demo_env =
     \<lparr>resolve_playlist =
        (\<lambda>u. if u = ''p1''
             then Inr \<lparr>p_title = ''Mix'', p_username = ''dj'', p_tracks = [''u1'', ''u9'', ''u2'']\<rparr>
             else Inl (Exception ''not found'')),
      resolve_track =
        (\<lambda>u. if u = ''u1''
             then Inr \<lparr>t_title = ''Alpha'', t_username = ''ann'', t_permalink_url = ''u1'',
                       t_duration = 1000, t_genre = ''house'', t_stream_url = Inr ''s1''\<rparr>
             else if u = ''u2''
             then Inr \<lparr>t_title = ''Beta'', t_username = ''bob'', t_permalink_url = ''u2'',
                       t_duration = 2000, t_genre = ''techno'', t_stream_url = Inr ''s2''\<rparr>
             else Inl (Exception ''not found'')),
      requests_get =
        (\<lambda>u. if u = ''s1'' then Inr \<lparr>status_code = 200, content = [1]\<rparr>
             else Inr \<lparr>status_code = 404, content = []\<rparr>),
      librosa_load = (\<lambda>b. Inr ([0, 0, 0], 512)),
      beat_track = (\<lambda>a. Inr (120, [0, 1, 2, 3, 4])),
      chroma_cqt =
        (\<lambda>a. Inr [[3, 0], [0, 0], [0, 4], [0, 0], [0, 0], [0, 0],
                   [0, 0], [3, 1], [0, 0], [0, 0], [0, 0], [0, 0]]),
      agglomerative = (\<lambda>a k. Inr [0, 2]),
      rms_feature = (\<lambda>a frame_length hop_length. Inr [1, 3, 5])\<rparr>"

definition silent_env :: env where
  "silent_env = demo_env\<lparr>beat_track := (\<lambda>a. Inr (0, []))\<rparr>"

definition track_d :: song where
  "track_d =
     \<lparr>title = Some ''Alpha'', artist = Some ''ann'', track_url = Some ''u1'',
      duration = Some 1000, genre = Some ''house'', bpm = Some 120, key = Some ''D'',
      features = Some \<lparr>energy = [], rhythm = \<lparr>tempo = 120, beat_times = []\<rparr>,
                        struct = \<lparr>sections = [], bars = []\<rparr>\<rparr>\<rparr>"

definition demo_features :: deep_features where
  "demo_features =
     \<lparr>energy = [(0, Val 2), (2, Val 0)],
      rhythm = \<lparr>tempo = 120, beat_times = [0, 1, 2, 3, 4]\<rparr>,
      struct = \<lparr>sections = [0, 2], bars = [[0, 1, 2, 3], [4]]\<rparr>\<rparr>"

section \<open>Merge-insert and the cleanup filter\<close>

text \<open>
  C2. Merge-insert: the candidate is appended exactly when no record of the store equals
  it on every field, and otherwise the store is unchanged; inserting the same record a
  second time does not change the size of the store; a candidate with the track URL of an
  existing record but another value in some field is appended as a new record.
\<close>

theorem merge_insert_semantics:
  "(merge_insert store c = store @ [c] \<longleftrightarrow> c \<notin> set store)
   \<and> (c \<in> set store \<longrightarrow> merge_insert store c = store)
   \<and> length (merge_insert (merge_insert store c) c) = length (merge_insert store c)
   \<and> (track_url e = track_url c \<and> e \<noteq> c \<longrightarrow> merge_insert [e] c = [e, c])"
  by (auto simp: merge_insert_def)

theorem merge_insert_semantics_witness:
  "track_url track_a = track_url track_a_retitled \<and> track_a \<noteq> track_a_retitled
   \<and> track_a_retitled \<notin> set [track_a]
   \<and> merge_insert [track_a] track_a_retitled = [track_a, track_a_retitled]
   \<and> track_a_retitled \<in> set [track_a, track_a_retitled]
   \<and> merge_insert [track_a, track_a_retitled] track_a_retitled = [track_a, track_a_retitled]"
  using merge_insert_semantics [of "[track_a]" track_a_retitled track_a]
    merge_insert_semantics [of "[track_a, track_a_retitled]" track_a_retitled track_a]
  by (simp add: track_a_def track_a_retitled_def)

lemma length_filter_compl:
  "length (filter P xs) = length xs - length (filter (\<lambda>x. \<not> P x) xs)"
  using sum_length_filter_compl [of P xs] by arith

text \<open>
  C3. Cleanup filter: the cleaned list is as long as the input less the records missing
  \<open>bpm\<close> or \<open>key\<close>, every record of it has both, the kept records stand in the order of
  the input, and this list is what the cleanup writes to its output file.
\<close>

theorem cleanup_filter:
  "length (cleaned_songs ss) = length ss - length (filter (\<lambda>s. bpm s = None \<or> key s = None) ss)
   \<and> (\<forall>s \<in> set (cleaned_songs ss). bpm s \<noteq> None \<and> key s \<noteq> None)
   \<and> subseq (cleaned_songs ss) ss
   \<and> (load fs input_file = Inr ss \<longrightarrow>
        clean_analyzed_songs fs input_file output_file output_file = Some (Records (cleaned_songs ss)))"
  using length_filter_compl [of keep_song ss]
  by (auto simp: cleaned_songs_def keep_song_def clean_analyzed_songs_def save_def)

theorem cleanup_filter_witness:
  "load [''analyzed_songs.json'' \<mapsto> Records [track_a, track_b, track_c]] ''analyzed_songs.json''
     = Inr [track_a, track_b, track_c]
   \<and> cleaned_songs [track_a, track_b, track_c] = [track_b]
   \<and> clean_analyzed_songs [''analyzed_songs.json'' \<mapsto> Records [track_a, track_b, track_c]]
        ''analyzed_songs.json'' ''cleaned_songs.json'' ''cleaned_songs.json''
      = Some (Records [track_b])"
proof -
  have c: "cleaned_songs [track_a, track_b, track_c] = [track_b]"
    by (simp add: cleaned_songs_def keep_song_def track_a_def track_b_def track_c_def)
  have l: "load [''analyzed_songs.json'' \<mapsto> Records [track_a, track_b, track_c]]
             ''analyzed_songs.json'' = Inr [track_a, track_b, track_c]"
    by (simp add: load_def)
  from cleanup_filter [of "[track_a, track_b, track_c]"
      "[''analyzed_songs.json'' \<mapsto> Records [track_a, track_b, track_c]]"
      "''analyzed_songs.json''" "''cleaned_songs.json''"] l c
  show ?thesis by simp
qed

section \<open>Bar grouping\<close>

lemma concat_groups_take:
  "concat (map (\<lambda>k. take n (drop (k * n) xs)) [0..<m]) = take (m * n) xs"
proof (induction m)
  case 0
  then show ?case by simp
next
  case (Suc m)
  have "take (m * n) xs @ take n (drop (m * n) xs) = take (m * n + n) xs"
    by (simp add: take_add)
  with Suc show ?case by (simp add: add.commute)
qed


lemma group_bars_alt:
  "group_bars xs n = map (\<lambda>k. take n (drop (k * n) xs)) [0..<(length xs + n - 1) div n]"
  by (simp add: group_bars_def py_range_def slice_def comp_def)


lemma ceil_mult_ge:
  assumes "0 < n"
  shows "(L::nat) \<le> ((L + n - 1) div n) * n"
proof -
  have "(L + n - 1) div n * n + (L + n - 1) mod n = L + n - 1"
    by simp
  moreover have "(L + n - 1) mod n < n"
    using assms by simp
  ultimately show ?thesis
    by linarith
qed


lemma concat_group_bars: "0 < n \<Longrightarrow> concat (group_bars xs n) = xs"
  using ceil_mult_ge [of n "length xs"]
  by (simp add: group_bars_alt concat_groups_take)


lemma length_group_bars: "length (group_bars xs n) = (length xs + n - 1) div n"
  by (simp add: group_bars_alt)


lemma nth_group_bars:
  "k < length (group_bars xs n) \<Longrightarrow> group_bars xs n ! k = take n (drop (k * n) xs)"
  by (simp add: group_bars_alt)


lemma group_bars_full:
  assumes "Suc k < length (group_bars xs 4)"
  shows "length (group_bars xs 4 ! k) = 4"
proof -
  have "Suc k < (length xs + 3) div 4"
    using assms by (simp add: length_group_bars)
  then have "k * 4 + 4 \<le> length xs" by arith
  moreover have "k < length (group_bars xs 4)" using assms by simp
  ultimately show ?thesis by (simp add: nth_group_bars)
qed


lemma group_bars_last:
  assumes "xs \<noteq> []"
  shows "group_bars xs 4 \<noteq> [] \<and> 1 \<le> length (last (group_bars xs 4))
         \<and> length (last (group_bars xs 4)) \<le> 4
         \<and> length (last (group_bars xs 4)) = length xs - 4 * (length (group_bars xs 4) - 1)"
proof -
  let ?m = "(length xs + 3) div 4"
  have len: "length (group_bars xs 4) = ?m" by (simp add: length_group_bars)
  have pos: "0 < length xs" using assms by simp
  then have m: "0 < ?m" by arith
  then have ne: "group_bars xs 4 \<noteq> []" using len by auto
  have "last (group_bars xs 4) = group_bars xs 4 ! (?m - 1)"
    using ne len by (simp add: last_conv_nth)
  also have "\<dots> = take 4 (drop ((?m - 1) * 4) xs)"
    using m len by (simp add: nth_group_bars)
  finally have l: "length (last (group_bars xs 4)) = min (length xs - (?m - 1) * 4) 4"
    by (simp add: min.commute)
  define q where "q = (?m - 1) * 4"
  have a: "q < length xs" unfolding q_def using pos by arith
  have b: "length xs \<le> q + 4" unfolding q_def by arith
  have c: "4 * (length (group_bars xs 4) - 1) = q" unfolding q_def len by simp
  have "length (last (group_bars xs 4)) = min (length xs - q) 4"
    using l unfolding q_def .
  then have "length (last (group_bars xs 4)) = length xs - q"
    using b by (simp add: min_def)
  moreover have "1 \<le> length xs - q \<and> length xs - q \<le> 4"
    using a b by linarith
  ultimately show ?thesis
    using c ne by simp
qed


lemma length_frames_to_time [simp]: "length (frames_to_time fs sr hop) = length fs"
  by (simp add: frames_to_time_def)

lemma concat_frames_to_time:
  "concat (map (\<lambda>g. frames_to_time g sr hop) gs) = frames_to_time (concat gs) sr hop"
  by (simp add: frames_to_time_def map_concat)

text \<open>
  C8 (as the code has it). \<open>extract_structure\<close> cuts the beat frames, in order, into
  consecutive groups and reports each group converted to times; the groups put end to end
  are the beat sequence, so every beat is in exactly one bar. Every group but the last has
  exactly 4 beats; the last has the remaining 1 to 4 beats, fewer than 4 when the number of
  beats is not a multiple of 4.
\<close>

theorem bar_grouping:
  assumes "beat_track ev a = Inr (t, beat_frames)"
    and "agglomerative ev a n = Inr boundaries"
  shows "\<exists>st. extract_structure ev a n = Inr st
           \<and> bars st = map (\<lambda>g. frames_to_time g (snd a) 512) (group_bars beat_frames 4)
           \<and> concat (group_bars beat_frames 4) = beat_frames
           \<and> concat (bars st) = frames_to_time beat_frames (snd a) 512
           \<and> length (bars st) = (length beat_frames + 3) div 4
           \<and> (\<forall>k. Suc k < length (bars st) \<longrightarrow> length (bars st ! k) = 4)
           \<and> (beat_frames \<noteq> [] \<longrightarrow>
                 1 \<le> length (last (bars st)) \<and> length (last (bars st)) \<le> 4
                 \<and> length (last (bars st)) = length beat_frames - 4 * (length (bars st) - 1))"
proof -
  let ?gs = "group_bars beat_frames 4"
  let ?bs = "map (\<lambda>g. frames_to_time g (snd a) 512) ?gs"
  have st: "extract_structure ev a n
              = Inr \<lparr>sections = frames_to_time boundaries (snd a) 512, bars = ?bs\<rparr>"
    using assms by (simp add: extract_structure_def)
  have c: "concat ?gs = beat_frames" by (simp add: concat_group_bars)
  have cb: "concat ?bs = frames_to_time beat_frames (snd a) 512"
    by (simp only: concat_frames_to_time c)
  have len: "length ?bs = (length beat_frames + 3) div 4"
    by (simp add: length_group_bars)
  have full: "\<forall>k. Suc k < length ?bs \<longrightarrow> length (?bs ! k) = 4"
    by (simp add: group_bars_full)
  have lst: "beat_frames \<noteq> [] \<longrightarrow>
                 1 \<le> length (last ?bs) \<and> length (last ?bs) \<le> 4
                 \<and> length (last ?bs) = length beat_frames - 4 * (length ?bs - 1)"
  proof
    assume ne: "beat_frames \<noteq> []"
    from group_bars_last [OF ne] show
      "1 \<le> length (last ?bs) \<and> length (last ?bs) \<le> 4
         \<and> length (last ?bs) = length beat_frames - 4 * (length ?bs - 1)"
      by (simp add: last_map)
  qed
  have b: "bars \<lparr>sections = frames_to_time boundaries (snd a) 512, bars = ?bs\<rparr> = ?bs"
    by simp
  show ?thesis
    unfolding st
    apply (rule exI [of _ "\<lparr>sections = frames_to_time boundaries (snd a) 512, bars = ?bs\<rparr>"])
    unfolding b
    using c cb len full lst by blast
qed

theorem bar_grouping_witness:
  "beat_track demo_env ([0, 0, 0], 512) = Inr (120, [0, 1, 2, 3, 4])
   \<and> agglomerative demo_env ([0, 0, 0], 512) 4 = Inr [0, 2]
   \<and> extract_structure demo_env ([0, 0, 0], 512) 4
       = Inr \<lparr>sections = [0, 2], bars = [[0, 1, 2, 3], [4]]\<rparr>
   \<and> concat (group_bars [0, 1, 2, 3, 4 :: nat] 4) = [0, 1, 2, 3, 4]"
proof -
  have b: "beat_track demo_env ([0, 0, 0], 512) = Inr (120, [0, 1, 2, 3, 4])"
    by (simp add: demo_env_def)
  have g: "agglomerative demo_env ([0, 0, 0], 512) 4 = Inr [0, 2]"
    by (simp add: demo_env_def)
  have v: "extract_structure demo_env ([0, 0, 0], 512) 4
             = Inr \<lparr>sections = [0, 2], bars = [[0, 1, 2, 3], [4]]\<rparr>"
    by (simp add: extract_structure_def demo_env_def frames_to_time_def group_bars_def
        py_range_def slice_def upt_rec)
  from bar_grouping [OF b g] v b g show ?thesis by auto
qed

text \<open>
  C8 as stated fails: with five beats the second bar holds one beat, not four.
\<close>

theorem bar_grouping_counterexample:
  "beat_track demo_env ([0, 0, 0], 512) = Inr (120, [0, 1, 2, 3, 4])
   \<and> extract_structure demo_env ([0, 0, 0], 512) 4
       = Inr \<lparr>sections = [0, 2], bars = [[0, 1, 2, 3], [4]]\<rparr>
   \<and> length ([4] :: real list) \<noteq> 4"
  by (simp add: extract_structure_def demo_env_def frames_to_time_def group_bars_def
      py_range_def slice_def upt_rec)

section \<open>Key estimation\<close>







lemma demo_key:
  "estimate_key [[3, 0], [0, 0], [0, 4], [0, 0], [0, 0], [0, 0],
                 [0, 0], [3, 1], [0, 0], [0, 0], [0, 0], [0, 0]] = Inr ''D''"
  by (simp add: estimate_key_def chroma_mean_def np_mean_def argmax_def key_mapping_def)


section \<open>Per-section energy\<close>

lemma section_entry_ok:
  "frame_times \<noteq> [] \<Longrightarrow>
   section_entry rms frame_times segs i =
     Inr (segs ! i, average_energy (section_energy rms frame_times (segs ! i)
                                      (section_end frame_times segs i)))"
  by (simp add: section_entry_def section_end_def py_last_def Let_def)

lemma energy_loop_ok:
  "frame_times \<noteq> [] \<Longrightarrow>
   energy_loop rms frame_times segs idxs =
     Inr (map (\<lambda>i. (segs ! i, average_energy (section_energy rms frame_times (segs ! i)
                                      (section_end frame_times segs i)))) idxs)"
  by (induction idxs) (simp_all add: section_entry_ok)

lemma section_energy_nth:
  "length frame_times = length rms \<Longrightarrow>
   section_energy rms frame_times s e =
     map (\<lambda>j. rms ! j) (filter (\<lambda>j. s \<le> frame_times ! j \<and> frame_times ! j < e) [0..<length rms])"
proof (induction rms arbitrary: frame_times rule: rev_induct)
  case Nil
  then show ?case by (simp add: section_energy_def)
next
  case (snoc x xs)
  then obtain ts t where ft: "frame_times = ts @ [t]" "length ts = length xs"
    by (cases frame_times rule: rev_cases) auto
  have ih: "section_energy xs ts s e =
     map (\<lambda>j. xs ! j) (filter (\<lambda>j. s \<le> ts ! j \<and> ts ! j < e) [0..<length xs])"
    using snoc.IH [of ts] ft by simp
  have f: "filter (\<lambda>j. s \<le> (ts @ [t]) ! j \<and> (ts @ [t]) ! j < e) [0..<length xs]
         = filter (\<lambda>j. s \<le> ts ! j \<and> ts ! j < e) [0..<length xs]"
    using ft by (intro filter_cong) (auto simp: nth_append)
  have m: "map (\<lambda>j. (xs @ [x]) ! j) (filter (\<lambda>j. s \<le> ts ! j \<and> ts ! j < e) [0..<length xs])
         = map (\<lambda>j. xs ! j) (filter (\<lambda>j. s \<le> ts ! j \<and> ts ! j < e) [0..<length xs])"
    by (intro map_cong) (auto simp: nth_append)
  have "section_energy (xs @ [x]) (ts @ [t]) s e
        = section_energy xs ts s e @ (if s \<le> t \<and> t < e then [x] else [])"
    using ft by (simp add: section_energy_def)
  then show ?case
    using ft ih f m by (simp add: nth_append)
qed

lemma length_frame_times_of [simp]: "length (frame_times_of rms sr hop) = length rms"
  by (simp add: frame_times_of_def frames_to_time_def)

lemma nth_frame_times_of:
  "j < length rms \<Longrightarrow> frame_times_of rms sr hop ! j = real (j * hop) / real sr"
  by (simp add: frame_times_of_def frames_to_time_def)

lemma last_frame_times_of:
  "rms \<noteq> [] \<Longrightarrow> last (frame_times_of rms sr hop) = real ((length rms - 1) * hop) / real sr"
proof -
  assume ne: "rms \<noteq> []"
  then have l: "length rms - 1 < length rms" by (cases rms) auto
  have "frame_times_of rms sr hop \<noteq> []"
    using ne by (simp add: frame_times_of_def frames_to_time_def)
  then have "last (frame_times_of rms sr hop) = frame_times_of rms sr hop ! (length rms - 1)"
    by (simp add: last_conv_nth)
  then show ?thesis
    by (simp only: nth_frame_times_of [OF l])
qed

text \<open>
  The RMS values that the code selects for section \<open>i\<close>, written out: those of the frames
  \<open>j\<close> whose time \<open>j * hop_length / sr\<close> lies from the start of the section up to, and not
  including, the start of the next section, or for the last section the time of the last
  frame.
\<close>

lemma selection_explicit:
  assumes "rms \<noteq> []"
  shows "section_energy rms (frame_times_of rms sr hop) (segs ! i)
           (section_end (frame_times_of rms sr hop) segs i)
         = map (\<lambda>j. rms ! j)
             (filter (\<lambda>j. segs ! i \<le> real (j * hop) / real sr
                         \<and> real (j * hop) / real sr
                             < (if i + 1 < length segs then segs ! (i + 1)
                                else real ((length rms - 1) * hop) / real sr))
                     [0..<length rms])"
proof -
  let ?ft = "frame_times_of rms sr hop"
  have e: "section_end ?ft segs i
             = (if i + 1 < length segs then segs ! (i + 1)
                else real ((length rms - 1) * hop) / real sr)"
    using last_frame_times_of [OF assms, of sr hop] by (auto simp: section_end_def)
  have "section_energy rms ?ft (segs ! i) (section_end ?ft segs i)
          = map (\<lambda>j. rms ! j)
              (filter (\<lambda>j. segs ! i \<le> ?ft ! j \<and> ?ft ! j < section_end ?ft segs i) [0..<length rms])"
    by (rule section_energy_nth) simp
  also have "filter (\<lambda>j. segs ! i \<le> ?ft ! j \<and> ?ft ! j < section_end ?ft segs i) [0..<length rms]
          = filter (\<lambda>j. segs ! i \<le> real (j * hop) / real sr
                         \<and> real (j * hop) / real sr < section_end ?ft segs i) [0..<length rms]"
    by (rule filter_cong) (simp_all add: nth_frame_times_of)
  finally show ?thesis
    unfolding e .
qed

lemma extract_energy_spec:
  assumes "rms_feature ev a frame_length hop_length = Inr rms" and "rms \<noteq> []"
  shows "extract_energy_by_section ev a segs frame_length hop_length
           = Inr (map (\<lambda>i. (segs ! i,
                     average_energy
                       (map (\<lambda>j. rms ! j)
                          (filter (\<lambda>j. segs ! i \<le> real (j * hop_length) / real (snd a)
                                      \<and> real (j * hop_length) / real (snd a)
                                          < (if i + 1 < length segs then segs ! (i + 1)
                                             else real ((length rms - 1) * hop_length) / real (snd a)))
                                  [0..<length rms]))))
                  [0..<length segs])"
proof -
  let ?ft = "frame_times_of rms (snd a) hop_length"
  have ne: "?ft \<noteq> []"
  proof
    assume "?ft = []"
    then have "length ?ft = 0" by simp
    then show False using assms(2) by simp
  qed
  have "extract_energy_by_section ev a segs frame_length hop_length
          = energy_loop rms ?ft segs [0..<length segs]"
    using assms(1) by (simp add: extract_energy_by_section_def energy_by_section_def)
  also have "\<dots> = Inr (map (\<lambda>i. (segs ! i, average_energy (section_energy rms ?ft (segs ! i)
                                      (section_end ?ft segs i)))) [0..<length segs])"
    using ne by (rule energy_loop_ok)
  finally show ?thesis
    by (simp only: selection_explicit [OF assms(2)])
qed

text \<open>
  C5. Per-section energy. The RMS routine returns at least one frame, and the sample rate
  is positive. For \<open>k\<close> section start times the energy list has \<open>k\<close> entries; entry \<open>i\<close>
  pairs the start time of section \<open>i\<close> with the mean (the sum over the number) of the RMS
  values of the frames \<open>j\<close> whose time \<open>j * hop_length / sr\<close> lies from that start up to,
  and not including, the start of the next section, or for the last section the time of
  the last frame; when no frame is selected the value is 0. The start times of the entries
  are the given boundaries in order: strictly increasing when the boundaries are, the
  first being the first boundary.
\<close>

theorem energy_by_section_entries:
  assumes "rms_feature ev a frame_length hop_length = Inr rms" and "rms \<noteq> []"
    and "0 < snd a"
  shows "\<exists>en. extract_energy_by_section ev a segs frame_length hop_length = Inr en
           \<and> length en = length segs \<and> map fst en = segs
           \<and> (\<forall>i<length segs.
                 snd (en ! i) =
                   (let sel = map (\<lambda>j. rms ! j)
                          (filter (\<lambda>j. segs ! i \<le> real (j * hop_length) / real (snd a)
                                      \<and> real (j * hop_length) / real (snd a)
                                          < (if i + 1 < length segs then segs ! (i + 1)
                                             else real ((length rms - 1) * hop_length) / real (snd a)))
                                  [0..<length rms])
                    in if sel = [] then Val 0 else Val (sum_list sel / real (length sel))))
           \<and> (sorted_wrt (<) segs \<longrightarrow> sorted_wrt (<) (map fst en))
           \<and> (segs \<noteq> [] \<longrightarrow> fst (hd en) = hd segs)"
proof -
  let ?sel = "\<lambda>i. map (\<lambda>j. rms ! j)
                          (filter (\<lambda>j. segs ! i \<le> real (j * hop_length) / real (snd a)
                                      \<and> real (j * hop_length) / real (snd a)
                                          < (if i + 1 < length segs then segs ! (i + 1)
                                             else real ((length rms - 1) * hop_length) / real (snd a)))
                                  [0..<length rms])"
  let ?en = "map (\<lambda>i. (segs ! i, average_energy (?sel i))) [0..<length segs]"
  have e: "extract_energy_by_section ev a segs frame_length hop_length = Inr ?en"
    by (rule extract_energy_spec [OF assms(1,2)])
  have len: "length ?en = length segs" by simp
  have "map fst ?en = map (\<lambda>i. segs ! i) [0..<length segs]"
    by (simp add: comp_def)
  also have "\<dots> = segs" by (rule map_nth)
  finally have fs: "map fst ?en = segs" .
  have avg: "\<And>vs. average_energy vs = (if vs = [] then Val 0 else Val (sum_list vs / real (length vs)))"
    by (simp add: average_energy_def np_mean_def)
  have ent: "\<forall>i<length segs. snd (?en ! i) =
                   (let sel = ?sel i
                    in if sel = [] then Val 0 else Val (sum_list sel / real (length sel)))"
    by (simp add: avg Let_def)
  have srt: "sorted_wrt (<) segs \<longrightarrow> sorted_wrt (<) (map fst ?en)"
    by (simp only: fs) simp
  have h: "segs \<noteq> [] \<longrightarrow> fst (hd ?en) = hd segs"
  proof
    assume ne: "segs \<noteq> []"
    then have "?en \<noteq> []" by simp
    then have "hd (map fst ?en) = fst (hd ?en)" by (rule hd_map)
    then show "fst (hd ?en) = hd segs" by (simp only: fs)
  qed
  show ?thesis
    apply (rule exI [of _ ?en])
    using e len fs ent srt h by blast
qed

theorem energy_by_section_entries_witness:
  "rms_feature demo_env ([0, 0, 0], 1024) 2048 512 = Inr [1, 3, 5] \<and> [1, 3, 5 :: real] \<noteq> []
   \<and> (0 :: nat) < snd ([0, 0, 0 :: real], 1024 :: nat)
   \<and> extract_energy_by_section demo_env ([0, 0, 0], 1024) [0, 1] 2048 512
       = Inr [(0, Val 2), (1, Val 0)]
   \<and> length [(0, Val 2), (1, Val 0) :: real \<times> np_float] = length [0, 1 :: real]"
proof -
  have r: "rms_feature demo_env ([0, 0, 0], 1024) 2048 512 = Inr [1, 3, 5]"
    by (simp add: demo_env_def)
  have n: "[1, 3, 5 :: real] \<noteq> []" by simp
  have p: "(0 :: nat) < snd ([0, 0, 0 :: real], 1024 :: nat)" by simp
  have v: "extract_energy_by_section demo_env ([0, 0, 0], 1024) [0, 1] 2048 512
             = Inr [(0, Val 2), (1, Val 0)]"
    by (simp add: extract_energy_by_section_def demo_env_def energy_by_section_def
        section_entry_def py_last_def frame_times_of_def frames_to_time_def section_energy_def
        average_energy_def np_mean_def Let_def upt_rec)
  from energy_by_section_entries [OF r n p, of "[0, 1]"] r v show ?thesis by simp
qed

text \<open>
  C10. A section whose time range holds no RMS frame time gets the average energy 0:
  the call returns a list, with no error, and the value of the section is the number 0,
  not the NaN that the mean of its empty selection is.
\<close>

theorem empty_section_energy_zero:
  assumes "rms_feature ev a frame_length hop_length = Inr rms" and "rms \<noteq> []"
    and "0 < snd a" and "i < length segs"
    and "\<forall>j<length rms.
           \<not> (segs ! i \<le> real (j * hop_length) / real (snd a)
              \<and> real (j * hop_length) / real (snd a)
                  < (if i + 1 < length segs then segs ! (i + 1)
                     else real ((length rms - 1) * hop_length) / real (snd a)))"
  shows "\<exists>en. extract_energy_by_section ev a segs frame_length hop_length = Inr en
           \<and> length en = length segs \<and> en ! i = (segs ! i, Val 0)
           \<and> np_mean (section_energy rms (frame_times_of rms (snd a) hop_length) (segs ! i)
                        (section_end (frame_times_of rms (snd a) hop_length) segs i)) = NaN"
proof -
  let ?sel = "\<lambda>i. map (\<lambda>j. rms ! j)
                          (filter (\<lambda>j. segs ! i \<le> real (j * hop_length) / real (snd a)
                                      \<and> real (j * hop_length) / real (snd a)
                                          < (if i + 1 < length segs then segs ! (i + 1)
                                             else real ((length rms - 1) * hop_length) / real (snd a)))
                                  [0..<length rms])"
  let ?en = "map (\<lambda>i. (segs ! i, average_energy (?sel i))) [0..<length segs]"
  have e: "extract_energy_by_section ev a segs frame_length hop_length = Inr ?en"
    by (rule extract_energy_spec [OF assms(1,2)])
  have emp: "?sel i = []"
    using assms(5) by (simp add: filter_empty_conv)
  have len: "length ?en = length segs" by simp
  have "?en ! i = (segs ! i, average_energy (?sel i))"
    using assms(4) by simp
  then have ent: "?en ! i = (segs ! i, Val 0)"
    by (simp only: emp) (simp add: average_energy_def)
  have nan: "np_mean (section_energy rms (frame_times_of rms (snd a) hop_length) (segs ! i)
                        (section_end (frame_times_of rms (snd a) hop_length) segs i)) = NaN"
    by (simp only: selection_explicit [OF assms(2)] emp) (simp add: np_mean_def)
  show ?thesis
    apply (rule exI [of _ ?en])
    using e len ent nan by blast
qed

theorem empty_section_energy_zero_witness:
  "rms_feature demo_env ([0, 0, 0], 1024) 2048 512 = Inr [1, 3, 5] \<and> [1, 3, 5 :: real] \<noteq> []
   \<and> (0 :: nat) < snd ([0, 0, 0 :: real], 1024 :: nat)
   \<and> (1::nat) < length [0, 1 :: real]
   \<and> (\<exists>en. extract_energy_by_section demo_env ([0, 0, 0], 1024) [0, 1] 2048 512 = Inr en
          \<and> en ! 1 = (1, Val 0))"
proof -
  have r: "rms_feature demo_env ([0, 0, 0], 1024) 2048 512 = Inr [1, 3, 5]"
    by (simp add: demo_env_def)
  have n: "[1, 3, 5 :: real] \<noteq> []" by simp
  have p: "(0 :: nat) < snd ([0, 0, 0 :: real], 1024 :: nat)" by simp
  have i: "(1::nat) < length [0, 1 :: real]" by simp
  have e: "\<forall>j<length [1, 3, 5 :: real].
           \<not> ([0, 1] ! 1 \<le> real (j * 512) / real (snd ([0, 0, 0 :: real], 1024 :: nat))
              \<and> real (j * 512) / real (snd ([0, 0, 0 :: real], 1024 :: nat))
                  < (if 1 + 1 < length [0, 1 :: real] then [0, 1] ! (1 + 1)
                     else real ((length [1, 3, 5 :: real] - 1) * 512)
                            / real (snd ([0, 0, 0 :: real], 1024 :: nat))))"
    by simp
  from empty_section_energy_zero [OF r n p i e] r show ?thesis by auto
qed

section \<open>The loops of the three stages\<close>

lemma process_song_songs:
  "st_songs (process_song ev out st r) = (st_songs st)[r := bpm_key_update ev (st_songs st ! r)]"
  by (simp add: process_song_def bpm_key_update_def stream_to_fetch_def url_to_resolve_def Let_def
      split: option.split)

lemma analyze_step_songs:
  "st_songs (analyze_step ev out st r) = (st_songs st)[r := deep_update ev (st_songs st ! r)]"
  by (simp add: analyze_step_def deep_update_def stream_to_fetch_def url_to_resolve_def Let_def
      split: option.split sum.split)

lemma foldl_step_songs:
  assumes step: "\<And>st r. st_songs (step st r) = (st_songs st)[r := f (st_songs st ! r)]"
    and "distinct rs"
  shows "st_songs (foldl step st rs) =
           map (\<lambda>i. if i \<in> set rs then f (st_songs st ! i) else st_songs st ! i)
               [0..<length (st_songs st)]"
  using assms(2)
proof (induction rs arbitrary: st)
  case Nil
  show ?case by (simp add: map_nth)
next
  case (Cons r rs)
  then have d: "distinct rs" and r: "r \<notin> set rs" by simp_all
  have ne: "\<And>i. i \<in> set rs \<Longrightarrow> r \<noteq> i" using r by auto
  show ?case
    unfolding foldl_Cons Cons.IH [OF d] step
    by (rule nth_equalityI) (auto simp: nth_list_update_eq nth_list_update_neq r dest: ne)
qed

lemma foldl_step_songs_all:
  assumes step: "\<And>st r. st_songs (step st r) = (st_songs st)[r := f (st_songs st ! r)]"
    and "distinct rs" and "set rs = {0..<length (st_songs st)}"
  shows "st_songs (foldl step st rs) = map f (st_songs st)"
proof -
  have "st_songs (foldl step st rs) =
           map (\<lambda>i. if i \<in> set rs then f (st_songs st ! i) else st_songs st ! i)
               [0..<length (st_songs st)]"
    using assms(1,2) by (rule foldl_step_songs)
  also have "\<dots> = map (\<lambda>i. f (st_songs st ! i)) [0..<length (st_songs st)]"
    using assms(3) by (intro map_cong) auto
  also have "\<dots> = map f (st_songs st)"
    by (rule nth_equalityI) auto
  finally show ?thesis .
qed

lemma mset_append_to:
  "mset (concat (map snd (append_to acc g r))) = mset (concat (map snd acc)) + {#r#}"
  by (induction acc g r rule: append_to.induct) auto

lemma mset_sort_loop:
  "mset (concat (map snd (foldl (\<lambda>acc r. append_to acc (k r) r) acc rs)))
     = mset (concat (map snd acc)) + mset rs"
  by (induction rs arbitrary: acc) (auto simp: mset_append_to)

lemma mset_sort_songs_by_genre:
  "mset (concat (map snd (sort_songs_by_genre ss))) = mset [0..<length ss]"
  unfolding sort_songs_by_genre_def
  using mset_sort_loop [of "\<lambda>r. genre_of (ss ! r)" "[]" "[0..<length ss]"] by simp

lemma sort_songs_by_genre_perm:
  "distinct (concat (map snd (sort_songs_by_genre ss)))
   \<and> set (concat (map snd (sort_songs_by_genre ss))) = {0..<length ss}"
proof -
  let ?rs = "concat (map snd (sort_songs_by_genre ss))"
  have m: "mset ?rs = mset [0..<length ss]" by (rule mset_sort_songs_by_genre)
  then have "distinct ?rs" by (metis distinct_upt mset_eq_imp_distinct_iff)
  moreover have "set ?rs = {0..<length ss}"
    using m by (metis mset_eq_setD set_upt)
  ultimately show ?thesis by simp
qed

lemma foldl_process_genre:
  "foldl (process_genre ev out) st gs = foldl (process_song ev out) st (concat (map snd gs))"
  by (induction gs arbitrary: st) (simp_all add: process_genre_def)

lemma process_songs_final:
  assumes "load fs inp = Inr ss"
  shows "\<exists>st. process_songs ev fs inp out = Inr st \<and> st_songs st = map (bpm_key_update ev) ss"
proof -
  let ?init = "\<lparr>st_songs = ss, st_files = fs, st_events = []\<rparr>"
  let ?rs = "concat (map snd (sort_songs_by_genre ss))"
  have "st_songs (foldl (process_song ev out) ?init ?rs) = map (bpm_key_update ev) (st_songs ?init)"
  proof (rule foldl_step_songs_all)
    show "distinct ?rs" using sort_songs_by_genre_perm [of ss] by blast
    show "set ?rs = {0..<length (st_songs ?init)}" using sort_songs_by_genre_perm [of ss] by simp
  qed (rule process_song_songs)
  then show ?thesis
    using assms by (simp add: process_songs_def foldl_process_genre)
qed

lemma analyze_songs_final:
  assumes "load fs inp = Inr ss"
  shows "\<exists>st. analyze_songs ev fs inp out = Inr st \<and> st_songs st = map (deep_update ev) ss"
proof -
  let ?init = "\<lparr>st_songs = ss, st_files = fs, st_events = []\<rparr>"
  have "st_songs (foldl (analyze_step ev out) ?init [0..<length ss]) = map (deep_update ev) (st_songs ?init)"
    by (rule foldl_step_songs_all) (simp_all add: analyze_step_songs)
  then show ?thesis
    using assms by (simp add: analyze_songs_def)
qed

lemma resolved_urls_append [simp]: "resolved_urls (xs @ ys) = resolved_urls xs @ resolved_urls ys"
  by (simp add: resolved_urls_def)

lemma fetched_urls_append [simp]: "fetched_urls (xs @ ys) = fetched_urls xs @ fetched_urls ys"
  by (simp add: fetched_urls_def)

lemma urls_of_events [simp]:
  "resolved_urls [] = []" "fetched_urls [] = []"
  "resolved_urls (Resolved u # es) = u # resolved_urls es"
  "resolved_urls (Fetched u # es) = resolved_urls es"
  "resolved_urls (Saved p ss # es) = resolved_urls es"
  "resolved_urls (Slept # es) = resolved_urls es"
  "fetched_urls (Resolved u # es) = fetched_urls es"
  "fetched_urls (Fetched u # es) = u # fetched_urls es"
  "fetched_urls (Saved p ss # es) = fetched_urls es"
  "fetched_urls (Slept # es) = fetched_urls es"
  by (simp_all add: resolved_urls_def fetched_urls_def)

lemma process_song_resolved:
  "resolved_urls (st_events (process_song ev out st r))
     = resolved_urls (st_events st) @ url_to_resolve (st_songs st ! r)"
  by (simp add: process_song_def url_to_resolve_def Let_def split: option.split)

lemma process_song_fetched:
  "fetched_urls (st_events (process_song ev out st r))
     = fetched_urls (st_events st) @ stream_to_fetch ev (st_songs st ! r)"
  by (simp add: process_song_def stream_to_fetch_def url_to_resolve_def Let_def split: option.split)

lemma analyze_step_resolved:
  "resolved_urls (st_events (analyze_step ev out st r))
     = resolved_urls (st_events st) @ url_to_resolve (st_songs st ! r)"
  by (simp add: analyze_step_def url_to_resolve_def Let_def split: option.split sum.split)

lemma analyze_step_fetched:
  "fetched_urls (st_events (analyze_step ev out st r))
     = fetched_urls (st_events st) @ stream_to_fetch ev (st_songs st ! r)"
  by (simp add: analyze_step_def stream_to_fetch_def url_to_resolve_def Let_def
      split: option.split sum.split)

lemma track_url_attach [simp]: "track_url (attach_bpm_key res s) = track_url s"
  by (simp add: attach_bpm_key_def split: prod.split option.split)

lemma track_url_bpm_key_update [simp]: "track_url (bpm_key_update ev s) = track_url s"
  by (simp add: bpm_key_update_def split: list.split)

lemma track_url_deep_update [simp]: "track_url (deep_update ev s) = track_url s"
  by (simp add: deep_update_def split: list.split sum.split option.split)

lemma url_to_resolve_updates [simp]:
  "url_to_resolve (bpm_key_update ev s) = url_to_resolve s"
  "url_to_resolve (deep_update ev s) = url_to_resolve s"
  by (simp_all add: url_to_resolve_def)

lemma stream_to_fetch_updates [simp]:
  "stream_to_fetch ev (bpm_key_update ev s) = stream_to_fetch ev s"
  "stream_to_fetch ev (deep_update ev s) = stream_to_fetch ev s"
  by (simp_all add: stream_to_fetch_def)

lemma nth_update_same_prop:
  assumes "\<And>s. g (f s) = g s"
  shows "g (xs[r := f (xs ! r)] ! j) = g (xs ! j)"
proof (cases "r = j \<and> r < length xs")
  case True
  then show ?thesis using assms by simp
next
  case False
  then show ?thesis
    by (cases "r = j") (simp_all add: list_update_beyond)
qed

lemma foldl_step_events:
  assumes step: "\<And>st r. st_songs (step st r) = (st_songs st)[r := f (st_songs st ! r)]"
    and inv: "\<And>s. g (f s) = g s"
    and evs: "\<And>st r. h (st_events (step st r)) = h (st_events st) @ g (st_songs st ! r)"
  shows "h (st_events (foldl step st rs)) = h (st_events st) @ concat (map (\<lambda>r. g (st_songs st ! r)) rs)"
proof (induction rs arbitrary: st)
  case Nil
  show ?case by simp
next
  case (Cons r rs)
  have "\<And>j. g (st_songs (step st r) ! j) = g (st_songs st ! j)"
    unfolding step using inv by (rule nth_update_same_prop)
  then show ?case
    by (simp add: Cons.IH evs)
qed

lemma concat_map_nth: "concat (map (\<lambda>r. g (xs ! r)) [0..<length xs]) = concat (map g xs)"
proof -
  have "map (\<lambda>r. g (xs ! r)) [0..<length xs] = map g xs"
    by (rule nth_equalityI) auto
  then show ?thesis by simp
qed

lemma analyze_songs_events:
  assumes "load fs inp = Inr ss"
  shows "\<exists>st. analyze_songs ev fs inp out = Inr st
           \<and> resolved_urls (st_events st) = concat (map url_to_resolve ss)
           \<and> fetched_urls (st_events st) = concat (map (stream_to_fetch ev) ss)"
proof -
  let ?init = "\<lparr>st_songs = ss, st_files = fs, st_events = []\<rparr>"
  let ?fin = "foldl (analyze_step ev out) ?init [0..<length ss]"
  have r: "resolved_urls (st_events ?fin)
        = resolved_urls (st_events ?init) @ concat (map (\<lambda>r. url_to_resolve (st_songs ?init ! r)) [0..<length ss])"
    by (rule foldl_step_events [where step = "analyze_step ev out" and f = "deep_update ev"
          and g = url_to_resolve and h = resolved_urls])
       (simp_all add: analyze_step_songs analyze_step_resolved)
  have f: "fetched_urls (st_events ?fin)
        = fetched_urls (st_events ?init) @ concat (map (\<lambda>r. stream_to_fetch ev (st_songs ?init ! r)) [0..<length ss])"
    by (rule foldl_step_events [where step = "analyze_step ev out" and f = "deep_update ev"
          and g = "stream_to_fetch ev" and h = fetched_urls])
       (simp_all add: analyze_step_songs analyze_step_fetched)
  show ?thesis
    using assms r f by (simp add: analyze_songs_def concat_map_nth)
qed

lemma process_songs_events:
  assumes "load fs inp = Inr ss"
  shows "\<exists>st. process_songs ev fs inp out = Inr st
           \<and> resolved_urls (st_events st)
               = concat (map (\<lambda>r. url_to_resolve (ss ! r)) (concat (map snd (sort_songs_by_genre ss))))
           \<and> fetched_urls (st_events st)
               = concat (map (\<lambda>r. stream_to_fetch ev (ss ! r)) (concat (map snd (sort_songs_by_genre ss))))"
proof -
  let ?init = "\<lparr>st_songs = ss, st_files = fs, st_events = []\<rparr>"
  let ?rs = "concat (map snd (sort_songs_by_genre ss))"
  let ?fin = "foldl (process_song ev out) ?init ?rs"
  have r: "resolved_urls (st_events ?fin)
        = resolved_urls (st_events ?init) @ concat (map (\<lambda>r. url_to_resolve (st_songs ?init ! r)) ?rs)"
    by (rule foldl_step_events [where step = "process_song ev out" and f = "bpm_key_update ev"
          and g = url_to_resolve and h = resolved_urls])
       (simp_all add: process_song_songs process_song_resolved)
  have f: "fetched_urls (st_events ?fin)
        = fetched_urls (st_events ?init) @ concat (map (\<lambda>r. stream_to_fetch ev (st_songs ?init ! r)) ?rs)"
    by (rule foldl_step_events [where step = "process_song ev out" and f = "bpm_key_update ev"
          and g = "stream_to_fetch ev" and h = fetched_urls])
       (simp_all add: process_song_songs process_song_fetched)
  show ?thesis
    using assms r f by (simp add: process_songs_def foldl_process_genre)
qed

lemma mset_concat_map:
  "mset (concat (map f xs)) = (\<Sum>x\<in>#mset xs. mset (f x))"
  by (induction xs) simp_all

lemma mset_concat_map_perm:
  "mset rs = mset [0..<length xs] \<Longrightarrow>
   mset (concat (map (\<lambda>r. g (xs ! r)) rs)) = mset (concat (map g xs))"
proof -
  assume a: "mset rs = mset [0..<length xs]"
  have "mset (concat (map (\<lambda>r. g (xs ! r)) rs)) = (\<Sum>r\<in>#mset rs. mset (g (xs ! r)))"
    by (rule mset_concat_map)
  also have "\<dots> = (\<Sum>r\<in>#mset [0..<length xs]. mset (g (xs ! r)))"
    using a by simp
  also have "\<dots> = mset (concat (map (\<lambda>r. g (xs ! r)) [0..<length xs]))"
    by (rule mset_concat_map [symmetric])
  also have "\<dots> = mset (concat (map g xs))"
    by (simp only: concat_map_nth)
  finally show ?thesis .
qed

lemma url_to_resolve_fields:
  "url_to_resolve (s\<lparr>bpm := b, key := k, features := f\<rparr>) = url_to_resolve s"
  "stream_to_fetch ev (s\<lparr>bpm := b, key := k, features := f\<rparr>) = stream_to_fetch ev s"
  by (simp_all add: url_to_resolve_def stream_to_fetch_def)

text \<open>Runs of the stages on the example data.\<close>

lemma demo_deep: "analyze_song_deep demo_env ([0, 0, 0], 512) = Inr demo_features"
  by (simp add: analyze_song_deep_def extract_structure_def extract_rhythm_def
      extract_energy_by_section_def demo_env_def energy_by_section_def
      section_entry_def py_last_def frame_times_of_def frames_to_time_def section_energy_def
      average_energy_def np_mean_def Let_def upt_rec group_bars_def py_range_def slice_def
      demo_features_def)

lemma demo_fetch: "fetch_and_analyze demo_env ''s1'' = Inr (Some demo_features)"
proof -
  have "requests_get demo_env ''s1'' = Inr \<lparr>status_code = 200, content = [1]\<rparr>"
    by (simp add: demo_env_def)
  moreover have "librosa_load demo_env [1] = Inr ([0, 0, 0], 512)"
    by (simp add: demo_env_def)
  ultimately show ?thesis
    by (simp add: fetch_and_analyze_def demo_deep)
qed

lemma demo_stream: "get_stream_url demo_env ''u1'' = Some ''s1''" "get_stream_url demo_env ''u2'' = Some ''s2''"
  by (simp_all add: get_stream_url_def demo_env_def)

lemma stage3_rerun:
  "analyze_songs demo_env [''cleaned_songs.json'' \<mapsto> Records [track_d]]
       ''cleaned_songs.json'' ''deep_analyzed_songs.json''
     = Inr \<lparr>st_songs = [track_d\<lparr>features := Some demo_features\<rparr>],
            st_files = [''cleaned_songs.json'' \<mapsto> Records [track_d],
                        ''deep_analyzed_songs.json'' \<mapsto> Records [track_d\<lparr>features := Some demo_features\<rparr>]],
            st_events = [Resolved ''u1'', Fetched ''s1'',
                         Saved ''deep_analyzed_songs.json'' [track_d\<lparr>features := Some demo_features\<rparr>],
                         Slept]\<rparr>"
proof -
  have u: "track_url track_d = Some ''u1''" by (simp add: track_d_def)
  show ?thesis
    by (simp add: analyze_songs_def load_def analyze_step_def Let_def u demo_stream
      demo_fetch save_def)
qed

lemma demo_analyze_s2: "analyze_song demo_env ''s2'' = (None, None)"
  by (simp add: analyze_song_def demo_env_def)

lemma stage2_rerun:
  "process_songs demo_env [''all_songs.json'' \<mapsto> Records [track_b]]
       ''all_songs.json'' ''analyzed_songs.json''
     = Inr \<lparr>st_songs = [track_b],
            st_files = [''all_songs.json'' \<mapsto> Records [track_b],
                        ''analyzed_songs.json'' \<mapsto> Records [track_b]],
            st_events = [Resolved ''u2'', Fetched ''s2'',
                         Saved ''analyzed_songs.json'' [track_b], Slept]\<rparr>"
proof -
  have u: "track_url track_b = Some ''u2''" by (simp add: track_b_def)
  show ?thesis
    by (simp add: process_songs_def load_def sort_songs_by_genre_def process_genre_def
      process_song_def Let_def u demo_stream demo_analyze_s2 attach_bpm_key_def save_def)
qed

section \<open>Re-running a stage\<close>

text \<open>
  C1 (as the code has it). Re-running stage 2 or stage 3 from a saved file reprocesses every
  record that has a non-empty \<open>track_url\<close>, whether or not the record already carries the
  stage's target fields: stage 3 resolves the permalinks of these records in the order of
  the file, stage 2 in the order of the genre groups (the same permalinks, each as often),
  and each record whose resolution gives a stream URL is fetched and analysed again. The
  permalink resolved and the stream fetched for a record do not depend on its \<open>bpm\<close>,
  \<open>key\<close> or \<open>features\<close>.
\<close>

theorem rerun_reprocesses_all:
  "(load fs inp = Inr ss \<longrightarrow>
      (\<exists>st. analyze_songs ev fs inp out = Inr st
         \<and> resolved_urls (st_events st) = concat (map url_to_resolve ss)
         \<and> fetched_urls (st_events st) = concat (map (stream_to_fetch ev) ss)))
   \<and> (load fs inp = Inr ss \<longrightarrow>
      (\<exists>st. process_songs ev fs inp out = Inr st
         \<and> resolved_urls (st_events st)
             = concat (map (\<lambda>r. url_to_resolve (ss ! r)) (concat (map snd (sort_songs_by_genre ss))))
         \<and> fetched_urls (st_events st)
             = concat (map (\<lambda>r. stream_to_fetch ev (ss ! r)) (concat (map snd (sort_songs_by_genre ss))))
         \<and> mset (resolved_urls (st_events st)) = mset (concat (map url_to_resolve ss))
         \<and> mset (fetched_urls (st_events st)) = mset (concat (map (stream_to_fetch ev) ss))))
   \<and> url_to_resolve (s\<lparr>bpm := b, key := k, features := f\<rparr>) = url_to_resolve s
   \<and> stream_to_fetch ev (s\<lparr>bpm := b, key := k, features := f\<rparr>) = stream_to_fetch ev s"
proof -
  have s3: "load fs inp = Inr ss \<Longrightarrow>
      (\<exists>st. analyze_songs ev fs inp out = Inr st
         \<and> resolved_urls (st_events st) = concat (map url_to_resolve ss)
         \<and> fetched_urls (st_events st) = concat (map (stream_to_fetch ev) ss))"
    by (rule analyze_songs_events)
  have s2: "\<exists>st. process_songs ev fs inp out = Inr st
         \<and> resolved_urls (st_events st)
             = concat (map (\<lambda>r. url_to_resolve (ss ! r)) (concat (map snd (sort_songs_by_genre ss))))
         \<and> fetched_urls (st_events st)
             = concat (map (\<lambda>r. stream_to_fetch ev (ss ! r)) (concat (map snd (sort_songs_by_genre ss))))
         \<and> mset (resolved_urls (st_events st)) = mset (concat (map url_to_resolve ss))
         \<and> mset (fetched_urls (st_events st)) = mset (concat (map (stream_to_fetch ev) ss))"
    if l: "load fs inp = Inr ss"
  proof -
    from process_songs_events [OF l, of ev out] obtain st where
      st: "process_songs ev fs inp out = Inr st"
          "resolved_urls (st_events st)
             = concat (map (\<lambda>r. url_to_resolve (ss ! r)) (concat (map snd (sort_songs_by_genre ss))))"
          "fetched_urls (st_events st)
             = concat (map (\<lambda>r. stream_to_fetch ev (ss ! r)) (concat (map snd (sort_songs_by_genre ss))))"
      by blast
    have m1: "mset (resolved_urls (st_events st)) = mset (concat (map url_to_resolve ss))"
      unfolding st(2) by (rule mset_concat_map_perm) (rule mset_sort_songs_by_genre)
    have m2: "mset (fetched_urls (st_events st)) = mset (concat (map (stream_to_fetch ev) ss))"
      unfolding st(3) by (rule mset_concat_map_perm) (rule mset_sort_songs_by_genre)
    from st m1 m2 show ?thesis by blast
  qed
  show ?thesis
    using s3 s2 url_to_resolve_fields by blast
qed

theorem rerun_reprocesses_all_witness:
  "load [''cleaned_songs.json'' \<mapsto> Records [track_d, track_c\<lparr>track_url := None\<rparr>]] ''cleaned_songs.json''
     = Inr [track_d, track_c\<lparr>track_url := None\<rparr>]
   \<and> (\<exists>st. analyze_songs demo_env [''cleaned_songs.json'' \<mapsto> Records [track_d, track_c\<lparr>track_url := None\<rparr>]]
             ''cleaned_songs.json'' ''deep_analyzed_songs.json'' = Inr st
          \<and> resolved_urls (st_events st) = [''u1''] \<and> fetched_urls (st_events st) = [''s1''])
   \<and> (\<exists>st. process_songs demo_env [''cleaned_songs.json'' \<mapsto> Records [track_d, track_c\<lparr>track_url := None\<rparr>]]
             ''cleaned_songs.json'' ''deep_analyzed_songs.json'' = Inr st
          \<and> mset (resolved_urls (st_events st)) = {#''u1''#})"
proof -
  let ?ss = "[track_d, track_c\<lparr>track_url := None\<rparr>]"
  have l: "load [''cleaned_songs.json'' \<mapsto> Records ?ss] ''cleaned_songs.json'' = Inr ?ss"
    by (simp add: load_def)
  have r: "concat (map url_to_resolve ?ss) = [''u1'']"
    by (simp add: url_to_resolve_def track_d_def track_c_def)
  have f: "concat (map (stream_to_fetch demo_env) ?ss) = [''s1'']"
    by (simp add: stream_to_fetch_def url_to_resolve_def track_d_def track_c_def demo_stream)
  note T = rerun_reprocesses_all [of "[''cleaned_songs.json'' \<mapsto> Records ?ss]"
      "''cleaned_songs.json''" ?ss demo_env "''deep_analyzed_songs.json''"]
  from T l have A: "\<exists>st. analyze_songs demo_env [''cleaned_songs.json'' \<mapsto> Records ?ss]
             ''cleaned_songs.json'' ''deep_analyzed_songs.json'' = Inr st
          \<and> resolved_urls (st_events st) = concat (map url_to_resolve ?ss)
          \<and> fetched_urls (st_events st) = concat (map (stream_to_fetch demo_env) ?ss)"
    by blast
  from T l have B: "\<exists>st. process_songs demo_env [''cleaned_songs.json'' \<mapsto> Records ?ss]
             ''cleaned_songs.json'' ''deep_analyzed_songs.json'' = Inr st
          \<and> mset (resolved_urls (st_events st)) = mset (concat (map url_to_resolve ?ss))"
    by blast
  have m: "mset [''u1''] = {#''u1''#}" by simp
  show ?thesis
    using l A B unfolding r f m by blast
qed

text \<open>
  C1 as stated fails: a record that already has \<open>bpm\<close> and \<open>key\<close> is resolved and fetched
  again by stage 2, and a record that already has \<open>features\<close> is resolved, fetched and
  analysed again by stage 3, which overwrites its features.
\<close>

theorem rerun_reprocesses_all_counterexample:
  "bpm track_b = Some 128 \<and> key track_b = Some ''A''
   \<and> process_songs demo_env [''all_songs.json'' \<mapsto> Records [track_b]]
       ''all_songs.json'' ''analyzed_songs.json''
     = Inr \<lparr>st_songs = [track_b],
            st_files = [''all_songs.json'' \<mapsto> Records [track_b],
                        ''analyzed_songs.json'' \<mapsto> Records [track_b]],
            st_events = [Resolved ''u2'', Fetched ''s2'',
                         Saved ''analyzed_songs.json'' [track_b], Slept]\<rparr>
   \<and> features track_d \<noteq> None
   \<and> analyze_songs demo_env [''cleaned_songs.json'' \<mapsto> Records [track_d]]
       ''cleaned_songs.json'' ''deep_analyzed_songs.json''
     = Inr \<lparr>st_songs = [track_d\<lparr>features := Some demo_features\<rparr>],
            st_files = [''cleaned_songs.json'' \<mapsto> Records [track_d],
                        ''deep_analyzed_songs.json'' \<mapsto> Records [track_d\<lparr>features := Some demo_features\<rparr>]],
            st_events = [Resolved ''u1'', Fetched ''s1'',
                         Saved ''deep_analyzed_songs.json'' [track_d\<lparr>features := Some demo_features\<rparr>],
                         Slept]\<rparr>"
proof -
  have 1: "bpm track_b = Some 128 \<and> key track_b = Some ''A''" by (simp add: track_b_def)
  have 2: "features track_d \<noteq> None" by (simp add: track_d_def)
  show ?thesis using 1 2 stage2_rerun stage3_rerun by simp
qed

section \<open>Loading the store\<close>

text \<open>
  C7 (as the code has it). In stage 1 loading the store creates an empty store when the
  path does not exist, and the run proceeds from it; in stages 2 and 3 and in the cleanup a
  missing input file is an error: the stage stops with it, processing and writing nothing.
  Malformed content at load time is fatal in every stage. A stage that proceeds starts
  from the saved records: no load failure makes a stage proceed with an empty list in
  place of saved data.
\<close>

theorem load_semantics:
  "(fs out = None \<longrightarrow>
      url_collection ev fs ps out
        = Inr (foldl (collect_playlist ev out)
                 \<lparr>st_songs = [], st_files = save fs out [], st_events = []\<rparr> ps))
   \<and> (fs out = Some Malformed \<longrightarrow> url_collection ev fs ps out = Inl JSONDecodeError)
   \<and> (fs out = Some (Records ss) \<longrightarrow>
      url_collection ev fs ps out
        = Inr (foldl (collect_playlist ev out) \<lparr>st_songs = ss, st_files = fs, st_events = []\<rparr> ps))
   \<and> (fs inp = None \<longrightarrow>
      process_songs ev fs inp out = Inl FileNotFoundError
      \<and> analyze_songs ev fs inp out = Inl FileNotFoundError
      \<and> clean_analyzed_songs fs inp out = fs)
   \<and> (fs inp = Some Malformed \<longrightarrow>
      process_songs ev fs inp out = Inl JSONDecodeError
      \<and> analyze_songs ev fs inp out = Inl JSONDecodeError
      \<and> clean_analyzed_songs fs inp out = fs)
   \<and> (fs inp = Some (Records ss) \<longrightarrow>
      process_songs ev fs inp out
        = Inr (foldl (process_genre ev out) \<lparr>st_songs = ss, st_files = fs, st_events = []\<rparr>
                 (sort_songs_by_genre ss))
      \<and> analyze_songs ev fs inp out
        = Inr (foldl (analyze_step ev out) \<lparr>st_songs = ss, st_files = fs, st_events = []\<rparr>
                 [0..<length ss]))"
  by (simp add: url_collection_def process_songs_def analyze_songs_def clean_analyzed_songs_def
      load_def save_def Let_def)

theorem load_semantics_witness:
  "Map.empty ''all_songs.json'' = (None :: file_content option)
   \<and> url_collection demo_env Map.empty [] ''all_songs.json''
       = Inr \<lparr>st_songs = [], st_files = save Map.empty ''all_songs.json'' [], st_events = []\<rparr>
   \<and> url_collection demo_env [''all_songs.json'' \<mapsto> Malformed] [] ''all_songs.json''
       = Inl JSONDecodeError
   \<and> process_songs demo_env [''all_songs.json'' \<mapsto> Malformed] ''all_songs.json'' ''analyzed_songs.json''
       = Inl JSONDecodeError
   \<and> analyze_songs demo_env Map.empty ''all_songs.json'' ''analyzed_songs.json''
       = Inl FileNotFoundError"
  using load_semantics [where fs = Map.empty and out = "''all_songs.json''" and ev = demo_env
      and ps = "[]" and inp = "''all_songs.json''"]
    load_semantics [where fs = "[''all_songs.json'' \<mapsto> Malformed]" and out = "''all_songs.json''"
      and ev = demo_env and ps = "[]" and inp = "''all_songs.json''"]
    load_semantics [where fs = "[''all_songs.json'' \<mapsto> Malformed]" and out = "''analyzed_songs.json''"
      and ev = demo_env and inp = "''all_songs.json''"]
    load_semantics [where fs = Map.empty and out = "''analyzed_songs.json''"
      and ev = demo_env and inp = "''all_songs.json''"]
  by simp

text \<open>
  C7 as stated fails for stages 2 and 3 and the cleanup: with no input file they create
  no empty store, they stop with the error.
\<close>

theorem load_semantics_counterexample:
  "process_songs demo_env Map.empty ''all_songs.json'' ''analyzed_songs.json''
       = Inl FileNotFoundError
   \<and> analyze_songs demo_env Map.empty ''cleaned_songs.json'' ''deep_analyzed_songs.json''
       = Inl FileNotFoundError
   \<and> clean_analyzed_songs Map.empty ''analyzed_songs.json'' ''cleaned_songs.json'' = Map.empty"
  by (simp add: process_songs_def analyze_songs_def clean_analyzed_songs_def load_def)

section \<open>A tempo of zero\<close>

text \<open>
  C9. Stage 2 attaches \<open>bpm\<close> and \<open>key\<close> only when both values are truthy. When the
  analysis succeeds with a tempo of exactly 0, the record is left as it was (so without
  \<open>bpm\<close> and \<open>key\<close> if it had none), the whole list is still written to the output file,
  and the loop goes on with the next record.
\<close>

theorem zero_tempo_is_failure:
  "(track_url (st_songs st ! r) = Some url \<and> url \<noteq> [] \<and> get_stream_url ev url = Some su
      \<and> su \<noteq> [] \<and> analyze_song ev su = (Some 0, Some k) \<longrightarrow>
      st_songs (process_song ev out st r) = st_songs st
      \<and> st_files (process_song ev out st r) = save (st_files st) out (st_songs st)
      \<and> st_events (process_song ev out st r)
          = st_events st @ [Resolved url, Fetched su, Saved out (st_songs st), Slept]
      \<and> foldl (process_song ev out) st (r # rest)
          = foldl (process_song ev out) (process_song ev out st r) rest)
   \<and> (attach_bpm_key (b, k') s \<noteq> s \<longrightarrow>
        (\<exists>b1 k1. b = Some b1 \<and> k' = Some k1 \<and> b1 \<noteq> 0 \<and> k1 \<noteq> []
                  \<and> attach_bpm_key (b, k') s = s\<lparr>bpm := Some b1, key := Some k1\<rparr>))
   \<and> attach_bpm_key (Some 0, Some k) s = s"
proof -
  have a: "st_songs (process_song ev out st r) = st_songs st
      \<and> st_files (process_song ev out st r) = save (st_files st) out (st_songs st)
      \<and> st_events (process_song ev out st r)
          = st_events st @ [Resolved url, Fetched su, Saved out (st_songs st), Slept]"
    if "track_url (st_songs st ! r) = Some url" "url \<noteq> []" "get_stream_url ev url = Some su"
       "su \<noteq> []" "analyze_song ev su = (Some 0, Some k)"
    using that by (simp add: process_song_def Let_def attach_bpm_key_def)
  have b: "attach_bpm_key (b, k') s \<noteq> s \<longrightarrow>
        (\<exists>b1 k1. b = Some b1 \<and> k' = Some k1 \<and> b1 \<noteq> 0 \<and> k1 \<noteq> []
                  \<and> attach_bpm_key (b, k') s = s\<lparr>bpm := Some b1, key := Some k1\<rparr>)"
    by (auto simp: attach_bpm_key_def split: option.splits if_splits)
  have c: "attach_bpm_key (Some 0, Some k) s = s"
    by (simp add: attach_bpm_key_def)
  show ?thesis using a b c by simp
qed

lemma silent_analyze: "analyze_song silent_env ''s1'' = (Some 0, Some ''D'')"
proof -
  show ?thesis
    by (simp add: analyze_song_def analyze_audio_def silent_env_def demo_env_def demo_key)
qed

theorem zero_tempo_is_failure_witness:
  "track_url ([track_a] ! 0) = Some ''u1'' \<and> ''u1'' \<noteq> [] \<and> get_stream_url silent_env ''u1'' = Some ''s1''
   \<and> ''s1'' \<noteq> [] \<and> analyze_song silent_env ''s1'' = (Some 0, Some ''D'')
   \<and> st_songs (process_song silent_env ''analyzed_songs.json''
                  \<lparr>st_songs = [track_a], st_files = Map.empty, st_events = []\<rparr> 0) = [track_a]
   \<and> st_files (process_song silent_env ''analyzed_songs.json''
                  \<lparr>st_songs = [track_a], st_files = Map.empty, st_events = []\<rparr> 0)
       = [''analyzed_songs.json'' \<mapsto> Records [track_a]]
   \<and> bpm track_a = None \<and> key track_a = None"
proof -
  have u: "track_url ([track_a] ! 0) = Some ''u1''" by (simp add: track_a_def)
  have g: "get_stream_url silent_env ''u1'' = Some ''s1''"
    by (simp add: get_stream_url_def silent_env_def demo_env_def)
  have n: "bpm track_a = None \<and> key track_a = None" by (simp add: track_a_def)
  from zero_tempo_is_failure [where st = "\<lparr>st_songs = [track_a], st_files = Map.empty, st_events = []\<rparr>"
      and r = 0 and url = "''u1''" and ev = silent_env and su = "''s1''" and k = "''D''"
      and out = "''analyzed_songs.json''"] u g n silent_analyze
  show ?thesis by (simp add: save_def)
qed

section \<open>Skip and continue\<close>

lemma collect_track_songs:
  "st_songs (collect_track ev st url)
     = (case resolve_track ev url of
          Inl e \<Rightarrow> st_songs st
        | Inr t \<Rightarrow> merge_insert (st_songs st) (new_track t))"
  by (simp add: collect_track_def Let_def split: sum.split)

lemma collect_track_files [simp]: "st_files (collect_track ev st url) = st_files st"
  by (simp add: collect_track_def Let_def split: sum.split)

lemma foldl_collect_track_files [simp]:
  "st_files (foldl (collect_track ev) st urls) = st_files st"
  by (induction urls arbitrary: st) simp_all

lemma foldl_collect_track_songs:
  "st_songs (foldl (collect_track ev) st urls)
     = foldl merge_insert (st_songs st)
         (concat (map (\<lambda>url. case resolve_track ev url of Inl e \<Rightarrow> [] | Inr t \<Rightarrow> [new_track t]) urls))"
  by (induction urls arbitrary: st) (simp_all add: collect_track_songs split: sum.split)

lemma collect_playlist_songs:
  "st_songs (collect_playlist ev out st p) = foldl merge_insert (st_songs st) (tracks_of_playlist ev p)"
  by (simp add: collect_playlist_def tracks_of_playlist_def Let_def foldl_collect_track_songs
      split: sum.split)

lemma foldl_collect_playlist_songs:
  "st_songs (foldl (collect_playlist ev out) st ps)
     = foldl merge_insert (st_songs st) (concat (map (tracks_of_playlist ev) ps))"
  by (induction ps arbitrary: st) (simp_all add: collect_playlist_songs)

lemma url_collection_final:
  assumes "load (if fs out = None then save fs out [] else fs) out = Inr ss"
  shows "\<exists>st. url_collection ev fs ps out = Inr st
           \<and> st_songs st = foldl merge_insert ss (concat (map (tracks_of_playlist ev) ps))"
  using assms by (simp add: url_collection_def Let_def foldl_collect_playlist_songs)

lemma collect_playlist_failure:
  "resolve_playlist ev p = Inl e \<Longrightarrow>
     st_songs (collect_playlist ev out st p) = st_songs st
     \<and> st_files (collect_playlist ev out st p) = st_files st"
  by (simp add: collect_playlist_def Let_def)

lemma collect_track_failure:
  "resolve_track ev u = Inl e \<Longrightarrow>
     st_songs (collect_track ev st u) = st_songs st
     \<and> st_files (collect_track ev st u) = st_files st"
  by (simp add: collect_track_songs)

lemma get_stream_url_failure:
  "resolve_track ev u = Inl e \<Longrightarrow> get_stream_url ev u = None"
  by (simp add: get_stream_url_def)

lemma stream_to_fetch_cases:
  "stream_to_fetch ev s =
     (case track_url s of
        None \<Rightarrow> []
      | Some url \<Rightarrow>
          if url = [] then []
          else (case get_stream_url ev url of
                  None \<Rightarrow> []
                | Some su \<Rightarrow> if su = [] then [] else [su]))"
  by (simp add: stream_to_fetch_def url_to_resolve_def split: option.split)

lemma analyze_step_files:
  "st_files (analyze_step ev out st r) =
     (case stream_to_fetch ev (st_songs st ! r) of
        [] \<Rightarrow> st_files st
      | su # _ \<Rightarrow>
          (case fetch_and_analyze ev su of
             Inr (Some d) \<Rightarrow>
               save (st_files st) out ((st_songs st)[r := (st_songs st ! r)\<lparr>features := Some d\<rparr>])
           | _ \<Rightarrow> st_files st))"
  by (simp add: analyze_step_def stream_to_fetch_cases Let_def split: option.split sum.split)

lemma process_song_files:
  "st_files (process_song ev out st r) =
     (case stream_to_fetch ev (st_songs st ! r) of
        [] \<Rightarrow> st_files st
      | su # _ \<Rightarrow>
          save (st_files st) out
            ((st_songs st)[r := attach_bpm_key (analyze_song ev su) (st_songs st ! r)]))"
  by (simp add: process_song_def stream_to_fetch_cases Let_def split: option.split)

lemma analyze_step_no_stream:
  "stream_to_fetch ev (st_songs st ! r) = [] \<Longrightarrow>
     st_songs (analyze_step ev out st r) = st_songs st
     \<and> st_files (analyze_step ev out st r) = st_files st"
  by (simp add: analyze_step_songs analyze_step_files deep_update_def)

lemma analyze_step_failure:
  "fetch_and_analyze ev su = Inl e \<or> fetch_and_analyze ev su = Inr None \<Longrightarrow>
   stream_to_fetch ev (st_songs st ! r) = [su] \<Longrightarrow>
     st_songs (analyze_step ev out st r) = st_songs st
     \<and> st_files (analyze_step ev out st r) = st_files st"
  by (auto simp: analyze_step_songs analyze_step_files deep_update_def)

lemma fetch_and_analyze_failures:
  "requests_get ev su = Inl e \<Longrightarrow> fetch_and_analyze ev su = Inl e"
  "requests_get ev su = Inr resp \<Longrightarrow> status_code resp \<noteq> 200 \<Longrightarrow> fetch_and_analyze ev su = Inr None"
  "requests_get ev su = Inr resp \<Longrightarrow> status_code resp = 200 \<Longrightarrow>
     librosa_load ev (content resp) = Inl e \<Longrightarrow> fetch_and_analyze ev su = Inl e"
  "requests_get ev su = Inr resp \<Longrightarrow> status_code resp = 200 \<Longrightarrow>
     librosa_load ev (content resp) = Inr a \<Longrightarrow> analyze_song_deep ev a = Inl e \<Longrightarrow>
     fetch_and_analyze ev su = Inl e"
  by (simp_all add: fetch_and_analyze_def)

lemma analyze_song_failures:
  "requests_get ev su = Inl e \<Longrightarrow> analyze_song ev su = (None, None)"
  "requests_get ev su = Inr resp \<Longrightarrow> status_code resp \<noteq> 200 \<Longrightarrow> analyze_song ev su = (None, None)"
  "requests_get ev su = Inr resp \<Longrightarrow> status_code resp = 200 \<Longrightarrow>
     librosa_load ev (content resp) = Inl e \<Longrightarrow> analyze_song ev su = (None, None)"
  "requests_get ev su = Inr resp \<Longrightarrow> status_code resp = 200 \<Longrightarrow>
     librosa_load ev (content resp) = Inr a \<Longrightarrow> analyze_audio ev a = Inl e \<Longrightarrow>
     analyze_song ev su = (None, None)"
  by (simp_all add: analyze_song_def)

lemma process_song_no_stream:
  "stream_to_fetch ev (st_songs st ! r) = [] \<Longrightarrow>
     st_songs (process_song ev out st r) = st_songs st
     \<and> st_files (process_song ev out st r) = st_files st"
  by (simp add: process_song_songs process_song_files bpm_key_update_def)

lemma process_song_failure:
  "analyze_song ev su = (None, None) \<Longrightarrow>
   stream_to_fetch ev (st_songs st ! r) = [su] \<Longrightarrow>
     st_songs (process_song ev out st r) = st_songs st
     \<and> st_files (process_song ev out st r) = save (st_files st) out (st_songs st)"
  by (simp add: process_song_songs process_song_files bpm_key_update_def attach_bpm_key_def)

text \<open>
  C6 (as the code has it). Every failure of one item is caught at that item and changes no
  record. A playlist that does not resolve leaves the records and the files as they were,
  and so does a track that does not resolve; stage 1 as a whole inserts exactly the tracks
  that resolve, of the playlists that resolve. In stages 2 and 3 a record with no stream
  URL (no permalink, or a resolution failure) leaves the records and the files as they
  were; a network error, a status other than 200, a decode error and an analysis error
  each make the analysis fail, and a failed analysis leaves every record as it was. After
  a failed analysis stage 3 writes nothing, while stage 2 still writes the unchanged list
  to its output file, in place of what that file held. After a successful load each stage
  runs to its end, and the result is what each record gives taken alone: a failure changes
  nothing for the other records.
\<close>

theorem skip_and_continue:
  "(resolve_playlist ev p = Inl e \<longrightarrow>
      st_songs (collect_playlist ev out st p) = st_songs st
      \<and> st_files (collect_playlist ev out st p) = st_files st)
   \<and> (resolve_track ev u = Inl e \<longrightarrow>
      st_songs (collect_track ev st u) = st_songs st
      \<and> st_files (collect_track ev st u) = st_files st
      \<and> get_stream_url ev u = None)
   \<and> (load (if fs out = None then save fs out [] else fs) out = Inr ss \<longrightarrow>
      (\<exists>st'. url_collection ev fs ps out = Inr st'
          \<and> st_songs st' = foldl merge_insert ss (concat (map (tracks_of_playlist ev) ps))))
   \<and> (stream_to_fetch ev (st_songs st ! r) = [] \<longrightarrow>
      st_songs (process_song ev out st r) = st_songs st
      \<and> st_files (process_song ev out st r) = st_files st
      \<and> st_songs (analyze_step ev out st r) = st_songs st
      \<and> st_files (analyze_step ev out st r) = st_files st)
   \<and> (stream_to_fetch ev (st_songs st ! r) = [su] \<and> analyze_song ev su = (None, None) \<longrightarrow>
      st_songs (process_song ev out st r) = st_songs st
      \<and> st_files (process_song ev out st r) = (st_files st)(out \<mapsto> Records (st_songs st)))
   \<and> (stream_to_fetch ev (st_songs st ! r) = [su]
        \<and> (fetch_and_analyze ev su = Inl e \<or> fetch_and_analyze ev su = Inr None) \<longrightarrow>
      st_songs (analyze_step ev out st r) = st_songs st
      \<and> st_files (analyze_step ev out st r) = st_files st)
   \<and> (requests_get ev su = Inl e \<longrightarrow>
      analyze_song ev su = (None, None) \<and> fetch_and_analyze ev su = Inl e)
   \<and> (requests_get ev su = Inr resp \<and> status_code resp \<noteq> 200 \<longrightarrow>
      analyze_song ev su = (None, None) \<and> fetch_and_analyze ev su = Inr None)
   \<and> (requests_get ev su = Inr resp \<and> status_code resp = 200
        \<and> librosa_load ev (content resp) = Inl e \<longrightarrow>
      analyze_song ev su = (None, None) \<and> fetch_and_analyze ev su = Inl e)
   \<and> (requests_get ev su = Inr resp \<and> status_code resp = 200
        \<and> librosa_load ev (content resp) = Inr a \<longrightarrow>
      (analyze_audio ev a = Inl e \<longrightarrow> analyze_song ev su = (None, None))
      \<and> (analyze_song_deep ev a = Inl e \<longrightarrow> fetch_and_analyze ev su = Inl e))
   \<and> (load fs inp = Inr ss \<longrightarrow>
      (\<exists>st'. process_songs ev fs inp out = Inr st' \<and> st_songs st' = map (bpm_key_update ev) ss)
      \<and> (\<exists>st'. analyze_songs ev fs inp out = Inr st' \<and> st_songs st' = map (deep_update ev) ss))"
proof -
  note f1 = collect_playlist_failure [of ev p e out st]
  note f2 = collect_track_failure [of ev u e st] get_stream_url_failure [of ev u e]
  note f3 = url_collection_final [of fs out ss ev ps]
  note f4 = process_song_no_stream [of ev st r out] analyze_step_no_stream [of ev st r out]
  note f5 = process_song_failure [of ev su st r out]
  note f6 = analyze_step_failure [of ev su e st r out]
  note f7 = analyze_song_failures [of ev su] fetch_and_analyze_failures [of ev su]
  note f8 = process_songs_final [of fs inp ss ev out] analyze_songs_final [of fs inp ss ev out]
  have c1: "resolve_playlist ev p = Inl e \<longrightarrow>
      st_songs (collect_playlist ev out st p) = st_songs st
      \<and> st_files (collect_playlist ev out st p) = st_files st"
    using f1 by blast
  have c2: "resolve_track ev u = Inl e \<longrightarrow>
      st_songs (collect_track ev st u) = st_songs st
      \<and> st_files (collect_track ev st u) = st_files st
      \<and> get_stream_url ev u = None"
    using f2 by blast
  have c3: "load (if fs out = None then save fs out [] else fs) out = Inr ss \<longrightarrow>
      (\<exists>st'. url_collection ev fs ps out = Inr st'
          \<and> st_songs st' = foldl merge_insert ss (concat (map (tracks_of_playlist ev) ps)))"
    using f3 by blast
  have c4: "stream_to_fetch ev (st_songs st ! r) = [] \<longrightarrow>
      st_songs (process_song ev out st r) = st_songs st
      \<and> st_files (process_song ev out st r) = st_files st
      \<and> st_songs (analyze_step ev out st r) = st_songs st
      \<and> st_files (analyze_step ev out st r) = st_files st"
    using f4 by blast
  have c5: "stream_to_fetch ev (st_songs st ! r) = [su] \<and> analyze_song ev su = (None, None) \<longrightarrow>
      st_songs (process_song ev out st r) = st_songs st
      \<and> st_files (process_song ev out st r) = (st_files st)(out \<mapsto> Records (st_songs st))"
    using f5 unfolding save_def by blast
  have c6: "stream_to_fetch ev (st_songs st ! r) = [su]
        \<and> (fetch_and_analyze ev su = Inl e \<or> fetch_and_analyze ev su = Inr None) \<longrightarrow>
      st_songs (analyze_step ev out st r) = st_songs st
      \<and> st_files (analyze_step ev out st r) = st_files st"
    using f6 by blast
  have c7: "requests_get ev su = Inl e \<longrightarrow>
      analyze_song ev su = (None, None) \<and> fetch_and_analyze ev su = Inl e"
    using f7 by blast
  have c8: "requests_get ev su = Inr resp \<and> status_code resp \<noteq> 200 \<longrightarrow>
      analyze_song ev su = (None, None) \<and> fetch_and_analyze ev su = Inr None"
    using f7 by blast
  have c9: "requests_get ev su = Inr resp \<and> status_code resp = 200
        \<and> librosa_load ev (content resp) = Inl e \<longrightarrow>
      analyze_song ev su = (None, None) \<and> fetch_and_analyze ev su = Inl e"
    using f7 by blast
  have c10: "requests_get ev su = Inr resp \<and> status_code resp = 200
        \<and> librosa_load ev (content resp) = Inr a \<longrightarrow>
      (analyze_audio ev a = Inl e \<longrightarrow> analyze_song ev su = (None, None))
      \<and> (analyze_song_deep ev a = Inl e \<longrightarrow> fetch_and_analyze ev su = Inl e)"
    using f7 by blast
  have c11: "load fs inp = Inr ss \<longrightarrow>
      (\<exists>st'. process_songs ev fs inp out = Inr st' \<and> st_songs st' = map (bpm_key_update ev) ss)
      \<and> (\<exists>st'. analyze_songs ev fs inp out = Inr st' \<and> st_songs st' = map (deep_update ev) ss)"
    using f8 by blast
  show ?thesis
    by (intro conjI) (rule c1 c2 c3 c4 c5 c6 c7 c8 c9 c10 c11)+
qed

lemma demo_tracks: "concat (map (tracks_of_playlist demo_env) [''p0'', ''p1''])
    = [track_a, track_b\<lparr>bpm := None, key := None\<rparr>]"
  by (simp add: tracks_of_playlist_def demo_env_def new_track_def track_a_def track_b_def)

theorem skip_and_continue_witness:
  "resolve_playlist demo_env ''p0'' = Inl (Exception ''not found'')
   \<and> resolve_track demo_env ''u9'' = Inl (Exception ''not found'')
   \<and> load (save Map.empty ''all_songs.json'' []) ''all_songs.json'' = Inr []
   \<and> (\<exists>st. url_collection demo_env Map.empty [''p0'', ''p1''] ''all_songs.json'' = Inr st
          \<and> st_songs st = [track_a, track_b\<lparr>bpm := None, key := None\<rparr>])
   \<and> stream_to_fetch demo_env ([track_b, track_a] ! 0) = [''s2'']
   \<and> requests_get demo_env ''s2'' = Inr \<lparr>status_code = 404, content = []\<rparr>
   \<and> load [''cleaned_songs.json'' \<mapsto> Records [track_b, track_a]] ''cleaned_songs.json''
       = Inr [track_b, track_a]
   \<and> (\<exists>st. analyze_songs demo_env [''cleaned_songs.json'' \<mapsto> Records [track_b, track_a]]
              ''cleaned_songs.json'' ''deep_analyzed_songs.json'' = Inr st
          \<and> st_songs st = [track_b, track_a\<lparr>features := Some demo_features\<rparr>])"
proof -
  have p: "resolve_playlist demo_env ''p0'' = Inl (Exception ''not found'')"
    by (simp add: demo_env_def)
  have t: "resolve_track demo_env ''u9'' = Inl (Exception ''not found'')"
    by (simp add: demo_env_def)
  have l1: "load (if Map.empty ''all_songs.json'' = (None :: file_content option)
                  then save Map.empty ''all_songs.json'' [] else Map.empty) ''all_songs.json'' = Inr []"
    by (simp add: load_def save_def)
  have l1': "load (save Map.empty ''all_songs.json'' []) ''all_songs.json'' = Inr []"
    by (simp add: load_def save_def)
  have s: "stream_to_fetch demo_env ([track_b, track_a] ! 0) = [''s2'']"
    by (simp add: stream_to_fetch_cases track_b_def demo_stream)
  have q: "requests_get demo_env ''s2'' = Inr \<lparr>status_code = 404, content = []\<rparr>"
    by (simp add: demo_env_def)
  have l2: "load [''cleaned_songs.json'' \<mapsto> Records [track_b, track_a]] ''cleaned_songs.json''
       = Inr [track_b, track_a]"
    by (simp add: load_def)
  have sa: "stream_to_fetch demo_env track_a = [''s1'']" "stream_to_fetch demo_env track_b = [''s2'']"
    by (simp_all add: stream_to_fetch_cases track_a_def track_b_def demo_stream)
  have fb: "fetch_and_analyze demo_env ''s2'' = Inr None"
    by (simp add: fetch_and_analyze_def demo_env_def)
  have d: "map (deep_update demo_env) [track_b, track_a]
             = [track_b, track_a\<lparr>features := Some demo_features\<rparr>]"
    by (simp add: deep_update_def sa fb demo_fetch)
  note T1 = skip_and_continue [where ev = demo_env and fs = Map.empty and out = "''all_songs.json''"
      and ss = "[]" and ps = "[''p0'', ''p1'']",
      THEN conjunct2, THEN conjunct2, THEN conjunct1, rule_format]
  note T2 = skip_and_continue [where ev = demo_env
      and fs = "[''cleaned_songs.json'' \<mapsto> Records [track_b, track_a]]"
      and inp = "''cleaned_songs.json''" and out = "''deep_analyzed_songs.json''"
      and ss = "[track_b, track_a]",
      THEN conjunct2, THEN conjunct2, THEN conjunct2, THEN conjunct2, THEN conjunct2,
      THEN conjunct2, THEN conjunct2, THEN conjunct2, THEN conjunct2, THEN conjunct2,
      rule_format]
  have m: "foldl merge_insert [] [track_a, track_b\<lparr>bpm := None, key := None\<rparr>]
             = [track_a, track_b\<lparr>bpm := None, key := None\<rparr>]"
    by (simp add: merge_insert_def track_a_def track_b_def)
  have A: "\<exists>st. url_collection demo_env Map.empty [''p0'', ''p1''] ''all_songs.json'' = Inr st
          \<and> st_songs st = [track_a, track_b\<lparr>bpm := None, key := None\<rparr>]"
    using T1 [OF l1] unfolding demo_tracks m .
  have B: "\<exists>st. analyze_songs demo_env [''cleaned_songs.json'' \<mapsto> Records [track_b, track_a]]
              ''cleaned_songs.json'' ''deep_analyzed_songs.json'' = Inr st
          \<and> st_songs st = [track_b, track_a\<lparr>features := Some demo_features\<rparr>]"
    using T2 [OF l2, THEN conjunct2] unfolding d .
  show ?thesis
    by (intro conjI) (rule p t l1' s q l2 A B)+
qed

text \<open>
  C6 as stated fails for stage 2: a fetch that fails with status 404 is followed by the
  save, and the output file, which held the record with its earlier \<open>bpm\<close> and \<open>key\<close>,
  is overwritten with the record without them.
\<close>

theorem skip_and_continue_counterexample:
  "requests_get demo_env ''s2'' = Inr \<lparr>status_code = 404, content = []\<rparr>
   \<and> process_songs demo_env
         [''all_songs.json'' \<mapsto> Records [track_b\<lparr>bpm := None, key := None\<rparr>],
          ''analyzed_songs.json'' \<mapsto> Records [track_b]]
         ''all_songs.json'' ''analyzed_songs.json''
       = Inr \<lparr>st_songs = [track_b\<lparr>bpm := None, key := None\<rparr>],
              st_files =
                [''all_songs.json'' \<mapsto> Records [track_b\<lparr>bpm := None, key := None\<rparr>],
                 ''analyzed_songs.json'' \<mapsto> Records [track_b\<lparr>bpm := None, key := None\<rparr>]],
              st_events =
                [Resolved ''u2'', Fetched ''s2'',
                 Saved ''analyzed_songs.json'' [track_b\<lparr>bpm := None, key := None\<rparr>], Slept]\<rparr>
   \<and> track_b\<lparr>bpm := None, key := None\<rparr> \<noteq> track_b"
proof -
  have q: "requests_get demo_env ''s2'' = Inr \<lparr>status_code = 404, content = []\<rparr>"
    by (simp add: demo_env_def)
  have u: "track_url (track_b\<lparr>bpm := None, key := None\<rparr>) = Some ''u2''"
    by (simp add: track_b_def)
  have n: "track_b\<lparr>bpm := None, key := None\<rparr> \<noteq> track_b"
    by (simp add: track_b_def)
  have p: "process_songs demo_env
         [''all_songs.json'' \<mapsto> Records [track_b\<lparr>bpm := None, key := None\<rparr>],
          ''analyzed_songs.json'' \<mapsto> Records [track_b]]
         ''all_songs.json'' ''analyzed_songs.json''
       = Inr \<lparr>st_songs = [track_b\<lparr>bpm := None, key := None\<rparr>],
              st_files =
                [''all_songs.json'' \<mapsto> Records [track_b\<lparr>bpm := None, key := None\<rparr>],
                 ''analyzed_songs.json'' \<mapsto> Records [track_b\<lparr>bpm := None, key := None\<rparr>]],
              st_events =
                [Resolved ''u2'', Fetched ''s2'',
                 Saved ''analyzed_songs.json'' [track_b\<lparr>bpm := None, key := None\<rparr>], Slept]\<rparr>"
    by (simp add: process_songs_def load_def sort_songs_by_genre_def process_genre_def
      process_song_def Let_def u demo_stream demo_analyze_s2 attach_bpm_key_def save_def)
  show ?thesis
    by (intro conjI) (rule q p n)+
qed

end
